theory Spec2Isabelle
  imports Complex_Main "HOL-Library.Word"
begin

unbundle bit_operations_syntax

section \<open>Biometrics hashing and evaluation with SHA-256\<close>

text \<open>
  A shallow embedding of \<^verbatim>\<open>biometrics.py\<close>. Byte strings are lists of 8-bit words,
  Python's unbounded integers are \<^typ>\<open>int\<close>, text is \<^typ>\<open>string\<close>. The file system
  is an explicit read-only value, standard output and the process-wide random generator
  are an explicit state that every effectful function takes and returns.
\<close>

type_synonym byte = "8 word"
type_synonym w32 = "32 word"

subsection \<open>The library function \<^verbatim>\<open>hashlib.sha256\<close> (FIPS 180-4)\<close>

text \<open>
  \<^verbatim>\<open>generate_sha256_hash\<close> calls \<^verbatim>\<open>hashlib.sha256(data).hexdigest()\<close>. The library
  function is written out here as the standard defines it: padding to a multiple of 64
  bytes, a 64-word message schedule per block, 64 rounds of the compression function on
  eight 32-bit working variables, and the digest printed as lowercase hexadecimal.
\<close>

definition rotr :: "nat \<Rightarrow> w32 \<Rightarrow> w32" where
  "rotr n x = drop_bit n x OR push_bit (32 - n) x"

definition Ch :: "w32 \<Rightarrow> w32 \<Rightarrow> w32 \<Rightarrow> w32" where
  "Ch x y z = (x AND y) XOR (NOT x AND z)"

definition Maj :: "w32 \<Rightarrow> w32 \<Rightarrow> w32 \<Rightarrow> w32" where
  "Maj x y z = (x AND y) XOR (x AND z) XOR (y AND z)"

definition Sigma0 :: "w32 \<Rightarrow> w32" where
  "Sigma0 x = rotr 2 x XOR rotr 13 x XOR rotr 22 x"

definition Sigma1 :: "w32 \<Rightarrow> w32" where
  "Sigma1 x = rotr 6 x XOR rotr 11 x XOR rotr 25 x"

definition sigma0 :: "w32 \<Rightarrow> w32" where
  "sigma0 x = rotr 7 x XOR rotr 18 x XOR drop_bit 3 x"

definition sigma1 :: "w32 \<Rightarrow> w32" where
  "sigma1 x = rotr 17 x XOR rotr 19 x XOR drop_bit 10 x"

text \<open>The sixty-four round constants, eight to a row.\<close>

definition K256 :: "w32 list" where
  "K256 =
     [0x428a2f98, 0x71374491, 0xb5c0fbcf, 0xe9b5dba5, 0x3956c25b, 0x59f111f1, 0x923f82a4, 0xab1c5ed5] @
     [0xd807aa98, 0x12835b01, 0x243185be, 0x550c7dc3, 0x72be5d74, 0x80deb1fe, 0x9bdc06a7, 0xc19bf174] @
     [0xe49b69c1, 0xefbe4786, 0x0fc19dc6, 0x240ca1cc, 0x2de92c6f, 0x4a7484aa, 0x5cb0a9dc, 0x76f988da] @
     [0x983e5152, 0xa831c66d, 0xb00327c8, 0xbf597fc7, 0xc6e00bf3, 0xd5a79147, 0x06ca6351, 0x14292967] @
     [0x27b70a85, 0x2e1b2138, 0x4d2c6dfc, 0x53380d13, 0x650a7354, 0x766a0abb, 0x81c2c92e, 0x92722c85] @
     [0xa2bfe8a1, 0xa81a664b, 0xc24b8b70, 0xc76c51a3, 0xd192e819, 0xd6990624, 0xf40e3585, 0x106aa070] @
     [0x19a4c116, 0x1e376c08, 0x2748774c, 0x34b0bcb5, 0x391c0cb3, 0x4ed8aa4a, 0x5b9cca4f, 0x682e6ff3] @
     [0x748f82ee, 0x78a5636f, 0x84c87814, 0x8cc70208, 0x90befffa, 0xa4506ceb, 0xbef9a3f7, 0xc67178f2]"

datatype hash_state = HS w32 w32 w32 w32 w32 w32 w32 w32

definition H256_init :: hash_state where
  "H256_init = HS 0x6a09e667 0xbb67ae85 0x3c6ef372 0xa54ff53a
                  0x510e527f 0x9b05688c 0x1f83d9ab 0x5be0cd19"

text \<open>Big-endian encodings of the message length and of the message words.\<close>

definition be_bytes64 :: "64 word \<Rightarrow> byte list" where
  "be_bytes64 x = map (\<lambda>i. ucast (drop_bit (8 * (7 - i)) x)) [0..<8]"

fun be_word :: "byte list \<Rightarrow> w32" where
  "be_word [] = 0"
| "be_word (b # bs) = push_bit (8 * length bs) (ucast b) OR be_word bs"

definition pad :: "byte list \<Rightarrow> byte list" where
  "pad m = m @ 0x80 # replicate ((119 - length m mod 64) mod 64) 0
             @ be_bytes64 (of_nat (8 * length m))"

fun chunks :: "nat \<Rightarrow> 'a list \<Rightarrow> 'a list list" where
  "chunks n [] = []"
| "chunks n xs = (if n = 0 then [xs] else take n xs # chunks n (drop n xs))"

fun schedule :: "nat \<Rightarrow> w32 list \<Rightarrow> w32 list" where
  "schedule 0 w = w"
| "schedule (Suc k) w =
     (let t = length w in
      schedule k (w @ [sigma1 (w ! (t - 2)) + w ! (t - 7) + sigma0 (w ! (t - 15)) + w ! (t - 16)]))"

definition round256 :: "hash_state \<Rightarrow> w32 \<times> w32 \<Rightarrow> hash_state" where
  "round256 s kw =
     (case s of HS a b c d e f g h \<Rightarrow>
        let T1 = h + Sigma1 e + Ch e f g + fst kw + snd kw;
            T2 = Sigma0 a + Maj a b c
        in HS (T1 + T2) a b c (d + T1) e f g)"

definition hs_add :: "hash_state \<Rightarrow> hash_state \<Rightarrow> hash_state" where
  "hs_add s t =
     (case s of HS a b c d e f g h \<Rightarrow>
      case t of HS a' b' c' d' e' f' g' h' \<Rightarrow>
        HS (a + a') (b + b') (c + c') (d + d') (e + e') (f + f') (g + g') (h + h'))"

definition compress :: "hash_state \<Rightarrow> byte list \<Rightarrow> hash_state" where
  "compress s block =
     (let w = schedule 48 (map be_word (chunks 4 block))
      in hs_add s (foldl round256 s (zip K256 w)))"

definition sha256 :: "byte list \<Rightarrow> hash_state" where
  "sha256 m = foldl compress H256_init (chunks 64 (pad m))"

definition hex_digit :: "nat \<Rightarrow> char" where
  "hex_digit n = ''0123456789abcdef'' ! (n mod 16)"

definition hex_word :: "w32 \<Rightarrow> string" where
  "hex_word x = map (\<lambda>i. hex_digit (unat (drop_bit (4 * (7 - i)) x))) [0..<8]"

definition hexdigest :: "hash_state \<Rightarrow> string" where
  "hexdigest s = (case s of HS a b c d e f g h \<Rightarrow> concat (map hex_word [a, b, c, d, e, f, g, h]))"

subsection \<open>The SHA-256 algorithm of the standard\<close>

text \<open>
  The specification asks for the digest that the SHA-256 algorithm computes. This is that
  algorithm as FIPS 180-4 states it, written a second time and in another way than the
  library function above, for comparison with it: words are natural numbers below
  \<open>2 ^ 32\<close> and addition is modulo \<open>2 ^ 32\<close> (section 2.2.2 and 3.2 of the standard), the
  message is padded with the byte 128, the least number of zero bytes that makes the length
  a multiple of 64 with the length field, and the length in bits on eight bytes (5.1.1),
  block \<open>i\<close> is read as sixteen big-endian words (5.2.1), the schedule \<open>W\<close> is given by its
  recurrence on the index \<open>t\<close> and the eight working variables are updated for
  \<open>t = 0, ..., 63\<close> (6.2.2). Only the two tables of constants are shared with the
  library function.
\<close>

definition SHR :: "nat \<Rightarrow> nat \<Rightarrow> nat" where
  "SHR n x = x div 2 ^ n"

definition SHL :: "nat \<Rightarrow> nat \<Rightarrow> nat" where
  "SHL n x = (x * 2 ^ n) mod 2 ^ 32"

definition ROTR :: "nat \<Rightarrow> nat \<Rightarrow> nat" where
  "ROTR n x = SHR n x OR SHL (32 - n) x"

definition complement :: "nat \<Rightarrow> nat" where
  "complement x = 2 ^ 32 - 1 - x"

definition Ch_spec :: "nat \<Rightarrow> nat \<Rightarrow> nat \<Rightarrow> nat" where
  "Ch_spec x y z = (x AND y) XOR (complement x AND z)"

definition Maj_spec :: "nat \<Rightarrow> nat \<Rightarrow> nat \<Rightarrow> nat" where
  "Maj_spec x y z = (x AND y) XOR (x AND z) XOR (y AND z)"

definition Sigma0_spec :: "nat \<Rightarrow> nat" where
  "Sigma0_spec x = ROTR 2 x XOR ROTR 13 x XOR ROTR 22 x"

definition Sigma1_spec :: "nat \<Rightarrow> nat" where
  "Sigma1_spec x = ROTR 6 x XOR ROTR 11 x XOR ROTR 25 x"

definition sigma0_spec :: "nat \<Rightarrow> nat" where
  "sigma0_spec x = ROTR 7 x XOR ROTR 18 x XOR SHR 3 x"

definition sigma1_spec :: "nat \<Rightarrow> nat" where
  "sigma1_spec x = ROTR 17 x XOR ROTR 19 x XOR SHR 10 x"

definition pad_count :: "nat \<Rightarrow> nat" where
  "pad_count l =
     (case find (\<lambda>k. (l + 1 + k + 8) mod 64 = 0) [0..<64] of Some k \<Rightarrow> k | None \<Rightarrow> 0)"

definition length_bytes :: "nat \<Rightarrow> nat list" where
  "length_bytes n = map (\<lambda>i. n div 256 ^ (7 - i) mod 256) [0..<8]"

definition pad_spec :: "nat list \<Rightarrow> nat list" where
  "pad_spec m = m @ [128] @ replicate (pad_count (length m)) 0 @ length_bytes (8 * length m)"

definition M_spec :: "nat list \<Rightarrow> nat \<Rightarrow> nat \<Rightarrow> nat" where
  "M_spec p i t =
     p ! (64 * i + 4 * t) * 2 ^ 24 + p ! (64 * i + 4 * t + 1) * 2 ^ 16
     + p ! (64 * i + 4 * t + 2) * 2 ^ 8 + p ! (64 * i + 4 * t + 3)"

fun W_spec :: "(nat \<Rightarrow> nat) \<Rightarrow> nat \<Rightarrow> nat" where
  "W_spec M t =
     (if t < 16 then M t
      else (sigma1_spec (W_spec M (t - 2)) + W_spec M (t - 7)
            + sigma0_spec (W_spec M (t - 15)) + W_spec M (t - 16)) mod 2 ^ 32)"

declare W_spec.simps [simp del]

datatype vars = Vars nat nat nat nat nat nat nat nat

fun vars_of :: "hash_state \<Rightarrow> vars" where
  "vars_of (HS a b c d e f g h) =
     Vars (unat a) (unat b) (unat c) (unat d) (unat e) (unat f) (unat g) (unat h)"

fun step_spec :: "(nat \<Rightarrow> nat) \<Rightarrow> nat \<Rightarrow> vars \<Rightarrow> vars" where
  "step_spec W t (Vars a b c d e f g h) =
     (let T1 = (h + Sigma1_spec e + Ch_spec e f g + unat (K256 ! t) + W t) mod 2 ^ 32;
          T2 = (Sigma0_spec a + Maj_spec a b c) mod 2 ^ 32
      in Vars ((T1 + T2) mod 2 ^ 32) a b c ((d + T1) mod 2 ^ 32) e f g)"

fun add_vars :: "vars \<Rightarrow> vars \<Rightarrow> vars" where
  "add_vars (Vars a b c d e f g h) (Vars a' b' c' d' e' f' g' h') =
     Vars ((a + a') mod 2 ^ 32) ((b + b') mod 2 ^ 32) ((c + c') mod 2 ^ 32)
          ((d + d') mod 2 ^ 32) ((e + e') mod 2 ^ 32) ((f + f') mod 2 ^ 32)
          ((g + g') mod 2 ^ 32) ((h + h') mod 2 ^ 32)"

definition block_spec :: "vars \<Rightarrow> (nat \<Rightarrow> nat) \<Rightarrow> vars" where
  "block_spec H M = add_vars (fold (step_spec (W_spec M)) [0..<64] H) H"

definition sha256_spec :: "nat list \<Rightarrow> vars" where
  "sha256_spec m =
     (let p = pad_spec m
      in fold (\<lambda>i H. block_spec H (M_spec p i)) [0..<length p div 64] (vars_of H256_init))"

definition hex32 :: "nat \<Rightarrow> string" where
  "hex32 n = map (\<lambda>i. ''0123456789abcdef'' ! (n div 16 ^ (7 - i) mod 16)) [0..<8]"

fun hexdigest_spec :: "vars \<Rightarrow> string" where
  "hexdigest_spec (Vars a b c d e f g h) = concat (map hex32 [a, b, c, d, e, f, g, h])"

definition sha256_hex_spec :: "nat list \<Rightarrow> string" where
  "sha256_hex_spec m = hexdigest_spec (sha256_spec m)"

subsection \<open>Environment and state\<close>

text \<open>
  What opening and reading a path does: it yields the content, or raises
  \<^verbatim>\<open>FileNotFoundError\<close>, or raises another \<^verbatim>\<open>IOError\<close>. The file system does not
  change while the program runs.
\<close>

datatype read_outcome = Content "byte list" | FileNotFoundError | IOError

record filesystem =
  open_read :: "string \<Rightarrow> read_outcome"
  isdir :: "string \<Rightarrow> bool"
  listdir :: "string \<Rightarrow> string list"

text \<open>
  The lines printed so far, and the random generator as the sequence of its future raw
  draws.
\<close>

record state =
  stdout :: "string list"
  entropy :: "nat \<Rightarrow> nat"

definition print :: "string \<Rightarrow> state \<Rightarrow> state" where
  "print line st = st\<lparr>stdout := stdout st @ [line]\<rparr>"

text \<open>
  \<^verbatim>\<open>random.randint(a, b)\<close>: an integer of the closed range from \<open>a\<close> to \<open>b\<close>, taken from the
  next raw draw, which is consumed. The program calls it with \<open>a \<le> b\<close> only (Python
  raises \<^verbatim>\<open>ValueError\<close> otherwise).
\<close>

definition randint :: "int \<Rightarrow> int \<Rightarrow> state \<Rightarrow> int \<times> state" where
  "randint a b st =
     (a + int (entropy st 0 mod nat (b - a + 1)),
      st\<lparr>entropy := \<lambda>n. entropy st (Suc n)\<rparr>)"

subsection \<open>Strings and paths\<close>

text \<open>
  \<^verbatim>\<open>str.lower\<close> on the ASCII letters. No character outside ASCII lowers to a
  letter of the four extensions, so the extension test below sees what Python sees.
\<close>

definition lower_char :: "char \<Rightarrow> char" where
  "lower_char c =
     (case map_of (zip ''ABCDEFGHIJKLMNOPQRSTUVWXYZ'' ''abcdefghijklmnopqrstuvwxyz'') c of
        Some l \<Rightarrow> l
      | None \<Rightarrow> c)"

definition lower :: "string \<Rightarrow> string" where
  "lower s = map lower_char s"

definition endswith :: "string \<Rightarrow> string \<Rightarrow> bool" where
  "endswith s suffix =
     (length suffix \<le> length s \<and> drop (length s - length suffix) s = suffix)"

text \<open>\<^verbatim>\<open>os.path.join\<close> on a POSIX system, for two components.\<close>

definition path_join :: "string \<Rightarrow> string \<Rightarrow> string" where
  "path_join a b =
     (if b \<noteq> [] \<and> hd b = CHR ''/'' then b
      else if a = [] \<or> last a = CHR ''/'' then a @ b
      else a @ ''/'' @ b)"

subsection \<open>The five functions of the program\<close>

definition image_to_binary :: "filesystem \<Rightarrow> string \<Rightarrow> state \<Rightarrow> byte list \<times> state" where
  "image_to_binary fs image_path st =
     (case open_read fs image_path of
        Content binary_data \<Rightarrow> (binary_data, st)
      | FileNotFoundError \<Rightarrow>
          ([], print (''Error: The file '' @ image_path @ '' was not found.'') st)
      | IOError \<Rightarrow>
          ([], print (''Error: An I/O error occurred while reading the file ''
                        @ image_path @ ''.'') st))"

definition generate_sha256_hash :: "byte list \<Rightarrow> string" where
  "generate_sha256_hash data = hexdigest (sha256 data)"

text \<open>
  The two draws are made in the order of the source: the index first, then the value.
  The store into the byte array is \<open>list_update\<close>; the index is inside the array
  and the value inside a byte because of the ranges asked of \<open>randint\<close>.
\<close>

definition tamper_image :: "byte list \<Rightarrow> state \<Rightarrow> byte list \<times> state" where
  "tamper_image binary_data st =
     (if binary_data = [] then ([], st)
      else
        let tampered_data = binary_data;
            (index_to_modify, st1) = randint 0 (int (length tampered_data) - 1) st;
            (new_value, st2) = randint 0 255 st1
        in (tampered_data[nat index_to_modify := word_of_int new_value], st2))"

text \<open>
  The evaluator has three return statements. The embedding returns, beside the label pair
  of the source, which of them was taken.
\<close>

datatype eval_exit = Read_Empty | Tamper_Empty | Compared

definition evaluate_exit ::
  "filesystem \<Rightarrow> string \<Rightarrow> bool \<Rightarrow> state \<Rightarrow> ((int \<times> int) \<times> eval_exit) \<times> state" where
  "evaluate_exit fs image_path tampered st =
     (let (binary_image, st1) = image_to_binary fs image_path st in
      if binary_image = [] then (((0, 0), Read_Empty), st1)
      else
        let original_sha256_hash = generate_sha256_hash binary_image;
            (binary_image2, st2) =
               (if tampered then tamper_image binary_image st1 else (binary_image, st1))
        in if tampered \<and> binary_image2 = [] then (((0, 0), Tamper_Empty), st2)
           else
             let predicted_label =
                   (if generate_sha256_hash binary_image2 = original_sha256_hash
                    then 1 else 0);
                 true_label = (if \<not> tampered then 1 else 0)
             in (((true_label, predicted_label), Compared), st2))"

definition evaluate_binary_vs_sha256 ::
  "filesystem \<Rightarrow> string \<Rightarrow> bool \<Rightarrow> state \<Rightarrow> (int \<times> int) \<times> state" where
  "evaluate_binary_vs_sha256 fs image_path tampered st =
     (let ((labels, ex), st') = evaluate_exit fs image_path tampered st in (labels, st'))"

definition is_image_name :: "string \<Rightarrow> bool" where
  "is_image_name filename =
     (let l = lower filename
      in endswith l ''.png'' \<or> endswith l ''.jpg'' \<or> endswith l ''.jpeg''
         \<or> endswith l ''.bmp'')"

text \<open>
  The loop over the directory entries, with the two label lists as accumulators.
\<close>

fun process_entries ::
  "filesystem \<Rightarrow> string \<Rightarrow> string list \<Rightarrow> int list \<times> int list \<Rightarrow> state
     \<Rightarrow> (int list \<times> int list) \<times> state" where
  "process_entries fs directory [] labels st = (labels, st)"
| "process_entries fs directory (filename # rest) labels st =
     (if is_image_name filename then
        let (all_true_labels, all_predicted_labels) = labels;
            image_path = path_join directory filename;
            st1 = print (''Processing original image: '' @ filename) st;
            ((true_label, predicted_label), st2) =
               evaluate_binary_vs_sha256 fs image_path False st1;
            all_true_labels = all_true_labels @ [true_label];
            all_predicted_labels = all_predicted_labels @ [predicted_label];
            st3 = print (''Processing tampered image: '' @ filename) st2;
            ((true_label, predicted_label), st4) =
               evaluate_binary_vs_sha256 fs image_path True st3;
            all_true_labels = all_true_labels @ [true_label];
            all_predicted_labels = all_predicted_labels @ [predicted_label]
        in process_entries fs directory rest (all_true_labels, all_predicted_labels) st4
      else process_entries fs directory rest labels st)"

text \<open>
  Modelled from the spec: \<^verbatim>\<open>precision_score\<close>, \<^verbatim>\<open>recall_score\<close> and \<^verbatim>\<open>f1_score\<close> of
  the metrics library, which is not part of the repository: precision is TP / (TP + FP),
  recall is TP / (TP + FN), F1 is 2 * precision * recall / (precision + recall), with
  predicted 1 as the positive class, and each is zero when its denominator is zero. The
  library's floating-point numbers are taken as reals.
\<close>

definition count_pairs :: "int \<Rightarrow> int \<Rightarrow> int list \<Rightarrow> int list \<Rightarrow> nat" where
  "count_pairs t p y_true y_pred = length (filter (\<lambda>q. q = (t, p)) (zip y_true y_pred))"

definition ratio_or_zero :: "real \<Rightarrow> real \<Rightarrow> real" where
  "ratio_or_zero n d = (if d = 0 then 0 else n / d)"

definition precision_score :: "int list \<Rightarrow> int list \<Rightarrow> real" where
  "precision_score y_true y_pred =
     ratio_or_zero (real (count_pairs 1 1 y_true y_pred))
       (real (count_pairs 1 1 y_true y_pred + count_pairs 0 1 y_true y_pred))"

definition recall_score :: "int list \<Rightarrow> int list \<Rightarrow> real" where
  "recall_score y_true y_pred =
     ratio_or_zero (real (count_pairs 1 1 y_true y_pred))
       (real (count_pairs 1 1 y_true y_pred + count_pairs 1 0 y_true y_pred))"

definition f1_score :: "int list \<Rightarrow> int list \<Rightarrow> real" where
  "f1_score y_true y_pred =
     (let p = precision_score y_true y_pred; r = recall_score y_true y_pred
      in ratio_or_zero (2 * p * r) (p + r))"

text \<open>
  The batch runner. Beside the three metrics that the source returns, the embedding
  returns the two label lists as they are at the return statement.
\<close>

record run_result =
  metrics :: "real \<times> real \<times> real"
  all_true_labels :: "int list"
  all_predicted_labels :: "int list"

definition process_images_run :: "filesystem \<Rightarrow> string \<Rightarrow> state \<Rightarrow> run_result \<times> state" where
  "process_images_run fs directory st =
     (if \<not> isdir fs directory then
        (\<lparr>metrics = (0, 0, 0), all_true_labels = [], all_predicted_labels = []\<rparr>,
         print (''Error: The directory '' @ directory @ '' does not exist.'') st)
      else
        let ((ts, ps), st1) = process_entries fs directory (listdir fs directory) ([], []) st
        in if ts = [] \<or> ps = [] then
             (\<lparr>metrics = (0, 0, 0), all_true_labels = ts, all_predicted_labels = ps\<rparr>,
              print ''Error: No valid images processed.'' st1)
           else
             (\<lparr>metrics = (precision_score ts ps, recall_score ts ps, f1_score ts ps),
               all_true_labels = ts, all_predicted_labels = ps\<rparr>, st1))"

definition process_images_in_directory ::
  "filesystem \<Rightarrow> string \<Rightarrow> state \<Rightarrow> (real \<times> real \<times> real) \<times> state" where
  "process_images_in_directory fs directory st =
     (let (r, st') = process_images_run fs directory st in (metrics r, st'))"

subsection \<open>Notions used to state the properties, and example inputs\<close>

text \<open>A read of the path yields at least one byte.\<close>

definition read_nonempty :: "filesystem \<Rightarrow> string \<Rightarrow> bool" where
  "read_nonempty fs image_path =
     (case open_read fs image_path of Content b \<Rightarrow> b \<noteq> [] | _ \<Rightarrow> False)"

text \<open>The bytes of \<^verbatim>\<open>b"ABCD"\<close>, and a state whose raw draws are 2, 3, 4, ...\<close>

definition abcd :: "byte list" where
  "abcd = [0x41, 0x42, 0x43, 0x44]"

definition example_state :: state where
  "example_state = \<lparr>stdout = [], entropy = (\<lambda>n. n + 2)\<rparr>"

text \<open>
  A directory with a text file, a readable image holding \<^verbatim>\<open>b"ABCD"\<close> and an image whose file
  is missing; the same with the missing image alone; the same with the text file alone.
\<close>

definition example_dir :: string where
  "example_dir = ''fingerprintDatasets''"

definition example_fs :: filesystem where
  "example_fs =
     \<lparr>open_read = (\<lambda>p. if p = ''fingerprintDatasets/a.png'' then Content abcd
                          else FileNotFoundError),
      isdir = (\<lambda>d. d = ''fingerprintDatasets''),
      listdir = (\<lambda>d. [''README.md'', ''a.png'', ''b.JPG''])\<rparr>"

definition unreadable_fs :: filesystem where
  "unreadable_fs = example_fs\<lparr>listdir := (\<lambda>d. [''b.JPG''])\<rparr>"

definition no_image_fs :: filesystem where
  "no_image_fs = example_fs\<lparr>listdir := (\<lambda>d. [''README.md''])\<rparr>"

text \<open>
  The two messages of the standard's examples for SHA-256: one block after padding, and
  two blocks.
\<close>

definition ascii :: "string \<Rightarrow> byte list" where
  "ascii s = map (\<lambda>c. of_char c) s"

definition abc :: "byte list" where
  "abc = ascii ''abc''"

definition two_blocks :: "byte list" where
  "two_blocks = ascii ''abcdbcdecdefdefgefghfghighijhijkijkljklmklmnlmnomnopnopq''"

text \<open>The byte sequences of a length, and the strings of that many hexadecimal digits.\<close>

definition byte_strings :: "nat \<Rightarrow> byte list set" where
  "byte_strings n = {b. length b = n}"

definition hex_strings :: "nat \<Rightarrow> string set" where
  "hex_strings n = {s. set s \<subseteq> set ''0123456789abcdef'' \<and> length s = n}"

section \<open>Properties of the hasher\<close>

lemma length_hex_word: "length (hex_word x) = 8"
  by (simp add: hex_word_def)

lemma hex_digit_lower_hex: "hex_digit n \<in> set ''0123456789abcdef''"
proof -
  have "n mod 16 < length ''0123456789abcdef''" by simp
  then show ?thesis unfolding hex_digit_def by (rule nth_mem)
qed

lemma hex_word_lower_hex: "set (hex_word x) \<subseteq> set ''0123456789abcdef''"
  unfolding hex_word_def using hex_digit_lower_hex by auto

lemma length_hexdigest: "length (hexdigest s) = 64"
  by (cases s) (simp add: hexdigest_def length_hex_word)

lemma hexdigest_lower_hex: "set (hexdigest s) \<subseteq> set ''0123456789abcdef''"
proof (cases s)
  case (HS a b c d e f g h)
  then show ?thesis
    using hex_word_lower_hex [of a] hex_word_lower_hex [of b] hex_word_lower_hex [of c]
      hex_word_lower_hex [of d] hex_word_lower_hex [of e] hex_word_lower_hex [of f]
      hex_word_lower_hex [of g] hex_word_lower_hex [of h]
    by (simp add: hexdigest_def)
qed

subsection \<open>The library function computes the algorithm of the standard\<close>

text \<open>
  Each operation on 32-bit words is the standard's operation on the numbers that the words
  stand for; then the padding, the message words, the schedule, the rounds and the blocks
  are compared in turn.
\<close>

lemma unat_SHR: "unat (drop_bit n (x :: w32)) = SHR n (unat x)"
proof -
  have "unat (drop_bit n x) = drop_bit n (unat x)" by (rule unat_drop_bit_eq)
  also have "\<dots> = unat x div 2 ^ n" by (rule drop_bit_eq_div)
  finally show ?thesis by (simp only: SHR_def)
qed

lemma unat_SHL: "unat (push_bit n (x :: w32)) = SHL n (unat x)"
proof -
  have "unat (push_bit n x) = take_bit LENGTH(32) (push_bit n (unat x))"
    by (rule unsigned_push_bit_eq)
  also have "\<dots> = take_bit 32 (unat x * 2 ^ n)"
    by (simp only: push_bit_eq_mult) simp
  also have "\<dots> = (unat x * 2 ^ n) mod 2 ^ 32" by (rule take_bit_eq_mod)
  finally show ?thesis by (simp only: SHL_def)
qed

lemma unat_ROTR: "unat (rotr n x) = ROTR n (unat x)"
  by (simp only: rotr_def ROTR_def unsigned_or_eq unat_SHR unat_SHL)

lemma unat_complement: "unat (NOT (x :: w32)) = complement (unat x)"
proof -
  have s: "x + NOT x = - 1" by simp
  have m: "unat (- 1 :: w32) = 2 ^ 32 - 1"
    by (simp add: unsigned_minus_1_eq_mask mask_eq_exp_minus_1)
  have "unat (x + NOT x) = (unat x + unat (NOT x)) mod 2 ^ LENGTH(32)"
    by (rule unat_word_ariths)
  then have "(unat x + unat (NOT x)) mod 2 ^ 32 = 2 ^ 32 - 1"
    unfolding s m by simp
  moreover have "unat x < 2 ^ 32" "unat (NOT x) < 2 ^ 32"
    using unsigned_less [of x] unsigned_less [of "NOT x"] by simp_all
  ultimately have "unat x + unat (NOT x) = 2 ^ 32 - 1"
    by (auto simp add: mod_if split: if_splits)
  then show ?thesis by (simp add: complement_def)
qed

lemma unat_Ch: "unat (Ch x y z) = Ch_spec (unat x) (unat y) (unat z)"
  by (simp add: Ch_def Ch_spec_def unsigned_and_eq unsigned_xor_eq unat_complement)

lemma unat_Maj: "unat (Maj x y z) = Maj_spec (unat x) (unat y) (unat z)"
  by (simp add: Maj_def Maj_spec_def unsigned_and_eq unsigned_xor_eq)

lemma unat_sum5:
  "unat ((a :: w32) + b + c + d + e) = (unat a + unat b + unat c + unat d + unat e) mod 2 ^ 32"
  by (simp add: unat_word_ariths mod_simps)

lemma unat_Sigma0: "unat (Sigma0 x) = Sigma0_spec (unat x)"
  by (simp only: Sigma0_def Sigma0_spec_def unsigned_xor_eq unat_ROTR)

lemma unat_Sigma1: "unat (Sigma1 x) = Sigma1_spec (unat x)"
  by (simp only: Sigma1_def Sigma1_spec_def unsigned_xor_eq unat_ROTR)

lemma unat_sigma0: "unat (sigma0 x) = sigma0_spec (unat x)"
  by (simp only: sigma0_def sigma0_spec_def unsigned_xor_eq unat_ROTR unat_SHR)

lemma unat_sigma1: "unat (sigma1 x) = sigma1_spec (unat x)"
  by (simp only: sigma1_def sigma1_spec_def unsigned_xor_eq unat_ROTR unat_SHR)

lemma unat_sum2: "unat ((a :: w32) + b) = (unat a + unat b) mod 2 ^ 32"
  by (simp add: unat_word_ariths)

lemma unat_sum4:
  "unat ((a :: w32) + b + c + d) = (unat a + unat b + unat c + unat d) mod 2 ^ 32"
  by (simp add: unat_word_ariths mod_simps)

lemma length_bytes_of_word:
  "map unat (be_bytes64 (of_nat n)) = length_bytes n"
proof -
  have "unat (ucast (drop_bit (8 * (7 - i)) (of_nat n :: 64 word)) :: byte)
      = n div 256 ^ (7 - i) mod 256" for i
  proof -
    have "unat (ucast (drop_bit (8 * (7 - i)) (of_nat n :: 64 word)) :: byte)
        = take_bit 8 (drop_bit (8 * (7 - i)) (take_bit 64 n))"
      by (simp add: unsigned_ucast_eq unat_drop_bit_eq unsigned_of_nat)
    also have "\<dots> = take_bit 8 (drop_bit (8 * (7 - i)) n)"
      by (rule bit_eqI) (auto simp add: bit_simps)
    also have "\<dots> = n div 2 ^ (8 * (7 - i)) mod 2 ^ 8"
      by (simp add: take_bit_eq_mod drop_bit_eq_div)
    also have "\<dots> = n div 256 ^ (7 - i) mod 256"
      by (simp add: power_mult)
    finally show ?thesis .
  qed
  then show ?thesis by (simp add: be_bytes64_def length_bytes_def)
qed

lemma pad_arith:
  fixes l :: nat
  defines "z \<equiv> (119 - l mod 64) mod 64"
  shows "z < 64" and "(l + 1 + z + 8) mod 64 = 0"
    and "\<forall>j<z. (l + 1 + j + 8) mod 64 \<noteq> 0"
proof -
  define r where "r = l mod 64"
  define q where "q = l div 64"
  have l: "l = 64 * q + r" and r: "r < 64" by (simp_all add: r_def q_def)
  show "z < 64" by (simp add: z_def)
  have zr: "z = (if r \<le> 55 then 55 - r else 119 - r)"
    unfolding z_def r_def [symmetric] using r by (auto simp add: mod_if)
  have step: "(l + 1 + j + 8) mod 64 = (r + j + 9) mod 64" for j
  proof -
    have "l + 1 + j + 8 = 64 * q + (r + j + 9)" unfolding l by simp
    then show ?thesis by (simp only: mod_mult_self4)
  qed
  show "(l + 1 + z + 8) mod 64 = 0"
    unfolding step zr using r by (auto simp add: mod_if)
  show "\<forall>j<z. (l + 1 + j + 8) mod 64 \<noteq> 0"
    unfolding step zr using r by (auto simp add: mod_if split: if_splits)
qed

lemma pad_count_eq: "pad_count l = (119 - l mod 64) mod 64"
proof -
  let ?z = "(119 - l mod 64) mod 64"
  let ?P = "\<lambda>k. (l + 1 + k + 8) mod 64 = 0"
  have "\<exists>i<length [0..<64]. ?P ([0..<64] ! i) \<and> ?z = [0..<64] ! i
          \<and> (\<forall>j<i. \<not> ?P ([0..<64] ! j))"
  proof (intro exI conjI)
    show "?z < length [0..<64]" using pad_arith(1) [of l] by simp
    show "?P ([0..<64] ! ?z)" using pad_arith(1,2) [of l] by simp
    show "?z = [0..<64] ! ?z" using pad_arith(1) [of l] by simp
    show "\<forall>j<?z. \<not> ?P ([0..<64] ! j)"
    proof (intro allI impI)
      fix j assume j: "j < ?z"
      then have "j < 64" using pad_arith(1) [of l] by simp
      then show "\<not> ?P ([0..<64] ! j)" using pad_arith(3) [of l] j by simp
    qed
  qed
  then have "find ?P [0..<64] = Some ?z" by (simp only: find_Some_iff)
  then show ?thesis by (simp add: pad_count_def)
qed

lemma pad_refines: "map unat (pad m) = pad_spec (map unat m)"
  by (simp only: pad_def pad_spec_def pad_count_eq length_bytes_of_word map_append list.map
      map_replicate length_map) simp

lemma length_pad: "length (pad m) mod 64 = 0"
proof -
  have "length (pad m) = length m + 1 + (119 - length m mod 64) mod 64 + 8"
    by (simp add: pad_def be_bytes64_def)
  then show ?thesis using pad_arith(2) [of "length m"] by simp
qed

lemma chunks_blocks:
  "0 < n \<Longrightarrow> length xs = n * N \<Longrightarrow>
   chunks n xs = map (\<lambda>i. take n (drop (n * i) xs)) [0..<N]"
proof (induction N arbitrary: xs)
  case 0
  then show ?case by simp
next
  case (Suc N)
  then obtain y ys where xs: "xs = y # ys" by (cases xs) auto
  have len: "length (drop n xs) = n * N" using Suc.prems by simp
  have "chunks n xs = take n xs # chunks n (drop n xs)"
    unfolding xs using Suc.prems(1) by simp
  also have "chunks n (drop n xs) = map (\<lambda>i. take n (drop (n * i) (drop n xs))) [0..<N]"
    using Suc.IH [OF Suc.prems(1) len] .
  also have "\<dots> = map (\<lambda>i. take n (drop (n * Suc i) xs)) [0..<N]"
    by (simp add: add.commute)
  finally show ?case by (simp add: map_upt_Suc del: upt_Suc)
qed

lemma take_4_drop:
  assumes "j + 4 \<le> length xs"
  shows "take 4 (drop j xs) = [xs ! j, xs ! (j + 1), xs ! (j + 2), xs ! (j + 3)]"
proof (rule nth_equalityI)
  show "length (take 4 (drop j xs)) = length [xs ! j, xs ! (j + 1), xs ! (j + 2), xs ! (j + 3)]"
    using assms by simp
next
  fix k assume "k < length (take 4 (drop j xs))"
  then have "k = 0 \<or> k = 1 \<or> k = 2 \<or> k = 3" by auto
  then show "take 4 (drop j xs) ! k = [xs ! j, xs ! (j + 1), xs ! (j + 2), xs ! (j + 3)] ! k"
    using assms by auto
qed

lemma or_shifted_add:
  fixes x y :: nat
  assumes "x < 2 ^ n"
  shows "y * 2 ^ n OR x = y * 2 ^ n + x"
proof -
  have "take_bit n x = x" using assms by (simp add: take_bit_nat_eq_self)
  then have x: "bit x k \<Longrightarrow> k < n" for k
    by (metis bit_take_bit_iff)
  have "y * 2 ^ n AND x = 0"
  proof (rule bit_eqI)
    fix k
    show "bit (y * 2 ^ n AND x) k = bit (0::nat) k"
      using x [of k] by (auto simp add: bit_and_iff bit_push_bit_iff simp flip: push_bit_eq_mult)
  qed
  then show ?thesis by (simp add: disjunctive_add_eq_or)
qed

lemma unat_be_word_4:
  "unat (be_word [a, b, c, d])
     = unat a * 2 ^ 24 + unat b * 2 ^ 16 + unat c * 2 ^ 8 + unat d"
proof -
  have a: "unat a < 2 ^ 8" and b: "unat b < 2 ^ 8" and c: "unat c < 2 ^ 8"
    and d: "unat d < 2 ^ 8"
    using unsigned_less [of a] unsigned_less [of b] unsigned_less [of c] unsigned_less [of d]
    by simp_all
  have u: "unat (ucast x :: w32) = unat x" for x :: byte
  proof -
    have "unat x < 2 ^ 8" using unsigned_less [of x] by simp
    then have "unat x < 2 ^ 32" by simp
    then have "take_bit 32 (unat x) = unat x" by (rule take_bit_nat_eq_self)
    then show ?thesis by (simp add: unsigned_ucast_eq)
  qed
  have s: "unat (push_bit k (ucast x :: w32)) = unat x * 2 ^ k"
    if "k = 8 \<or> k = 16 \<or> k = 24" for k and x :: byte
  proof -
    have "unat x < 2 ^ 8" using unsigned_less [of x] by simp
    then have "unat x * 2 ^ k < 2 ^ 32" using that by auto
    then show ?thesis by (simp add: unat_SHL SHL_def u)
  qed
  have "unat (be_word [a, b, c, d])
      = unat a * 2 ^ 24 OR (unat b * 2 ^ 16 OR (unat c * 2 ^ 8 OR unat d))"
    by (simp add: unsigned_or_eq s u or.assoc)
  also have "unat c * 2 ^ 8 OR unat d = unat c * 2 ^ 8 + unat d"
    using d by (rule or_shifted_add)
  also have "unat b * 2 ^ 16 OR (unat c * 2 ^ 8 + unat d)
      = unat b * 2 ^ 16 + (unat c * 2 ^ 8 + unat d)"
    using c d by (intro or_shifted_add) simp
  also have "unat a * 2 ^ 24 OR (unat b * 2 ^ 16 + (unat c * 2 ^ 8 + unat d))
      = unat a * 2 ^ 24 + (unat b * 2 ^ 16 + (unat c * 2 ^ 8 + unat d))"
    using b c d by (intro or_shifted_add) simp
  finally show ?thesis by simp
qed

lemma block_words:
  assumes len: "length p = 64 * N" and i: "i < N" and t: "t < 16"
  shows "unat (map be_word (chunks 4 (take 64 (drop (64 * i) p))) ! t)
           = M_spec (map unat p) i t"
proof -
  let ?b = "take 64 (drop (64 * i) p)"
  have fit: "64 * i + 64 \<le> length p" using len i by linarith
  have lb: "length ?b = 64" using fit by (simp add: min_def) arith
  have nb: "?b ! k = p ! (64 * i + k)" if "k < 64" for k
    using that fit by simp
  have inp: "64 * i + 4 * t + 3 < length p" using len i t by simp
  have "chunks 4 ?b = map (\<lambda>j. take 4 (drop (4 * j) ?b)) [0..<16]"
    using lb by (intro chunks_blocks) simp_all
  then have "map be_word (chunks 4 ?b) ! t = be_word (take 4 (drop (4 * t) ?b))"
    using t by simp
  also have "take 4 (drop (4 * t) ?b)
      = [?b ! (4 * t), ?b ! (4 * t + 1), ?b ! (4 * t + 2), ?b ! (4 * t + 3)]"
    by (rule take_4_drop) (use lb t in simp)
  also have "\<dots> = [p ! (64 * i + 4 * t), p ! (64 * i + 4 * t + 1),
      p ! (64 * i + 4 * t + 2), p ! (64 * i + 4 * t + 3)]"
  proof -
    have "?b ! (4 * t) = p ! (64 * i + 4 * t)"
      and "?b ! (4 * t + 1) = p ! (64 * i + 4 * t + 1)"
      and "?b ! (4 * t + 2) = p ! (64 * i + 4 * t + 2)"
      and "?b ! (4 * t + 3) = p ! (64 * i + 4 * t + 3)"
      using nb [of "4 * t"] nb [of "4 * t + 1"] nb [of "4 * t + 2"] nb [of "4 * t + 3"] t
      by (simp_all only: add.assoc)
    then show ?thesis by (simp only:)
  qed
  finally have e: "map be_word (chunks 4 ?b) ! t
      = be_word [p ! (64 * i + 4 * t), p ! (64 * i + 4 * t + 1),
          p ! (64 * i + 4 * t + 2), p ! (64 * i + 4 * t + 3)]" .
  have m: "M_spec (map unat p) i t
      = unat (p ! (64 * i + 4 * t)) * 2 ^ 24 + unat (p ! (64 * i + 4 * t + 1)) * 2 ^ 16
        + unat (p ! (64 * i + 4 * t + 2)) * 2 ^ 8 + unat (p ! (64 * i + 4 * t + 3))"
    using inp by (simp add: M_spec_def)
  show ?thesis by (simp only: e unat_be_word_4 m)
qed

lemma schedule_length: "length (schedule k w) = length w + k"
  by (induction k arbitrary: w) (simp_all add: Let_def)

lemma schedule_refines:
  "16 \<le> length w \<Longrightarrow> (\<forall>t<length w. unat (w ! t) = W_spec M t) \<Longrightarrow>
   \<forall>t<length w + k. unat (schedule k w ! t) = W_spec M t"
proof (induction k arbitrary: w)
  case 0
  then show ?case by simp
next
  case (Suc k)
  let ?n = "length w"
  let ?x = "sigma1 (w ! (?n - 2)) + w ! (?n - 7) + sigma0 (w ! (?n - 15)) + w ! (?n - 16)"
  have x: "unat ?x = W_spec M ?n"
  proof -
    have "unat ?x = (sigma1_spec (unat (w ! (?n - 2))) + unat (w ! (?n - 7))
        + sigma0_spec (unat (w ! (?n - 15))) + unat (w ! (?n - 16))) mod 2 ^ 32"
      by (simp only: unat_sum4 unat_sigma0 unat_sigma1)
    also have "\<dots> = (sigma1_spec (W_spec M (?n - 2)) + W_spec M (?n - 7)
        + sigma0_spec (W_spec M (?n - 15)) + W_spec M (?n - 16)) mod 2 ^ 32"
      using Suc.prems by simp
    also have "\<dots> = W_spec M ?n"
      using Suc.prems(1) by (subst (5) W_spec.simps) simp
    finally show ?thesis .
  qed
  have all: "\<forall>t<length (w @ [?x]). unat ((w @ [?x]) ! t) = W_spec M t"
    using Suc.prems(2) x by (auto simp add: nth_append less_Suc_eq)
  have "16 \<le> length (w @ [?x])" using Suc.prems(1) by simp
  from Suc.IH [OF this all] show ?case by (simp add: Let_def)
qed

lemma length_K256: "length K256 = 64"
  by (simp add: K256_def)

lemma zip_K256:
  assumes "length w = 64"
  shows "zip K256 w = map (\<lambda>t. (K256 ! t, w ! t)) [0..<64]"
  by (rule nth_equalityI) (simp_all add: length_K256 assms)

lemma round_refines:
  "unat w = W t \<Longrightarrow> vars_of (round256 s (K256 ! t, w)) = step_spec W t (vars_of s)"
proof (cases s)
  case (HS a b c d e f g h)
  assume w: "unat w = W t"
  have T1: "unat (h + Sigma1 e + Ch e f g + K256 ! t + w)
      = (unat h + Sigma1_spec (unat e) + Ch_spec (unat e) (unat f) (unat g)
         + unat (K256 ! t) + W t) mod 2 ^ 32"
    by (simp only: unat_sum5 unat_Sigma1 unat_Ch w)
  have T2: "unat (Sigma0 a + Maj a b c)
      = (Sigma0_spec (unat a) + Maj_spec (unat a) (unat b) (unat c)) mod 2 ^ 32"
    by (simp only: unat_sum2 unat_Sigma0 unat_Maj)
  have A: "unat (h + Sigma1 e + Ch e f g + K256 ! t + w + (Sigma0 a + Maj a b c))
      = ((unat h + Sigma1_spec (unat e) + Ch_spec (unat e) (unat f) (unat g)
          + unat (K256 ! t) + W t) mod 2 ^ 32
         + (Sigma0_spec (unat a) + Maj_spec (unat a) (unat b) (unat c)) mod 2 ^ 32) mod 2 ^ 32"
    by (simp only: unat_sum2 [of "h + Sigma1 e + Ch e f g + K256 ! t + w"] T1 T2)
  have D: "unat (d + (h + Sigma1 e + Ch e f g + K256 ! t + w))
      = (unat d + (unat h + Sigma1_spec (unat e) + Ch_spec (unat e) (unat f) (unat g)
          + unat (K256 ! t) + W t) mod 2 ^ 32) mod 2 ^ 32"
    by (simp only: unat_sum2 [of d] T1)
  show ?thesis
    unfolding HS
    by (simp only: round256_def Let_def hash_state.case vars_of.simps step_spec.simps
        fst_conv snd_conv A D)
qed

lemma rounds_refine:
  "(\<forall>t\<in>set ts. unat (w ! t) = W t) \<Longrightarrow>
   vars_of (foldl round256 s (map (\<lambda>t. (K256 ! t, w ! t)) ts)) = fold (step_spec W) ts (vars_of s)"
  by (induction ts arbitrary: s) (simp_all add: round_refines)

lemma hs_add_refines: "vars_of (hs_add s r) = add_vars (vars_of r) (vars_of s)"
  by (cases s, cases r) (simp add: hs_add_def unat_sum2 add.commute)

lemma compress_refines:
  assumes len: "length p = 64 * N" and i: "i < N"
  shows "vars_of (compress s (take 64 (drop (64 * i) p)))
           = block_spec (vars_of s) (M_spec (map unat p) i)"
proof -
  let ?M = "M_spec (map unat p) i"
  let ?blk = "take 64 (drop (64 * i) p)"
  let ?ws = "map be_word (chunks 4 ?blk)"
  let ?sched = "schedule 48 ?ws"
  have fit: "64 * i + 64 \<le> length p" using len i by linarith
  have lb: "length ?blk = 4 * 16" using fit by (simp add: min_def) arith
  have c: "chunks 4 ?blk = map (\<lambda>j. take 4 (drop (4 * j) ?blk)) [0..<16]"
    using lb by (intro chunks_blocks) simp_all
  have "length (chunks 4 ?blk) = 16" unfolding c by simp
  then have l0: "length ?ws = 16" by simp
  have base: "\<forall>t<length ?ws. unat (?ws ! t) = W_spec ?M t"
  proof (intro allI impI)
    fix t assume "t < length ?ws"
    then have t: "t < 16" using l0 by simp
    then have "W_spec ?M t = ?M t" by (simp add: W_spec.simps)
    then show "unat (?ws ! t) = W_spec ?M t"
      using block_words [OF len i t] by simp
  qed
  have lw: "length ?sched = 64" using l0 by (simp add: schedule_length)
  have "16 \<le> length ?ws" using l0 by simp
  from schedule_refines [OF this base, of 48]
  have w: "\<forall>t\<in>set [0..<64]. unat (?sched ! t) = W_spec ?M t"
    using l0 by simp
  have "vars_of (foldl round256 s (zip K256 ?sched))
      = fold (step_spec (W_spec ?M)) [0..<64] (vars_of s)"
    unfolding zip_K256 [OF lw] using w by (rule rounds_refine)
  then show ?thesis
    by (simp add: compress_def Let_def hs_add_refines block_spec_def)
qed

lemma blocks_refine:
  assumes len: "length p = 64 * N"
  shows "(\<forall>i\<in>set is. i < N) \<Longrightarrow>
     vars_of (foldl compress s (map (\<lambda>i. take 64 (drop (64 * i) p)) is))
       = fold (\<lambda>i H. block_spec H (M_spec (map unat p) i)) is (vars_of s)"
  by (induction "is" arbitrary: s) (simp_all add: compress_refines [OF len])

lemma sha256_refines: "vars_of (sha256 m) = sha256_spec (map unat m)"
proof -
  define N where "N = length (pad m) div 64"
  have "64 dvd length (pad m)"
    using length_pad [of m] by (simp add: mod_eq_0_iff_dvd)
  then have len: "length (pad m) = 64 * N"
    by (simp add: N_def)
  have "chunks 64 (pad m) = map (\<lambda>i. take 64 (drop (64 * i) (pad m))) [0..<N]"
    by (rule chunks_blocks) (simp_all add: len)
  then have "vars_of (sha256 m)
      = fold (\<lambda>i H. block_spec H (M_spec (map unat (pad m)) i)) [0..<N] (vars_of H256_init)"
    by (simp add: sha256_def blocks_refine [OF len])
  moreover have "length (pad_spec (map unat m)) div 64 = N"
    by (simp add: pad_refines [symmetric] N_def)
  ultimately show ?thesis
    by (simp add: sha256_spec_def Let_def pad_refines)
qed

lemma hex_word_refines: "hex_word x = hex32 (unat x)"
proof -
  have "unat (drop_bit (4 * (7 - i)) x) mod 16 = unat x div 16 ^ (7 - i) mod 16" for i
    by (simp add: unat_SHR SHR_def power_mult)
  then show ?thesis by (simp add: hex_word_def hex32_def hex_digit_def)
qed

lemma hexdigest_refines: "hexdigest s = hexdigest_spec (vars_of s)"
  by (cases s) (simp add: hexdigest_def hex_word_refines)

lemma generate_sha256_hash_refines:
  "generate_sha256_hash data = sha256_hex_spec (map unat data)"
  by (simp add: generate_sha256_hash_def sha256_hex_spec_def hexdigest_refines sha256_refines)

subsection \<open>The hasher on five inputs\<close>

text \<open>
  The digests of the empty input, of \<^verbatim>\<open>b"ABCD"\<close>, of \<^verbatim>\<open>b"AB\x03D"\<close> and of the two
  messages of the standard's examples, computed step by step: padding, message words,
  message schedule, the 64 rounds, the final addition and the hexadecimal print. The
  rewrite rules below keep every intermediate word below \<open>2 ^ 32\<close>.
\<close>

lemma replicate_eval:
  "replicate (numeral n) x = x # replicate (pred_numeral n) x"
  "replicate 1 x = [x]"
  by (simp_all add: numeral_eq_Suc)

lemma chunks_4: "chunks 4 (a # b # c # d # xs) = [a, b, c, d] # chunks 4 xs"
  by simp

lemma be_word_4:
  "be_word [a, b, c, d] =
     push_bit 24 (ucast a) OR push_bit 16 (ucast b) OR push_bit 8 (ucast c) OR ucast d"
  by simp

lemma rotr_eval:
  "rotr n x = word_of_nat (unat (drop_bit n x OR push_bit (32 - n) x))"
  by (simp add: rotr_def)

lemma schedule_eval:
  "schedule (numeral n) w =
     schedule (pred_numeral n)
       (w @ [word_of_nat (unat (sigma1 (w ! (length w - 2)) + w ! (length w - 7)
              + sigma0 (w ! (length w - 15)) + w ! (length w - 16)))])"
  by (simp add: numeral_eq_Suc Let_def)

lemma schedule_last:
  "schedule (Suc 0) w =
     w @ [word_of_nat (unat (sigma1 (w ! (length w - 2)) + w ! (length w - 7)
              + sigma0 (w ! (length w - 15)) + w ! (length w - 16)))]"
  by (simp add: Let_def)

lemma round256_eval:
  "round256 (HS a b c d e f g h) (k, w) =
     HS (word_of_nat (unat (h + Sigma1 e + Ch e f g + k + w + (Sigma0 a + Maj a b c))))
        a b c
        (word_of_nat (unat (d + (h + Sigma1 e + Ch e f g + k + w)))) e f g"
  by (simp add: round256_def Let_def)

lemma pad_empty:
  "pad [] =
     [0x80, 0x00, 0x00, 0x00, 0x00, 0x00, 0x00, 0x00, 0x00, 0x00, 0x00, 0x00, 0x00, 0x00, 0x00, 0x00,
      0x00, 0x00, 0x00, 0x00, 0x00, 0x00, 0x00, 0x00, 0x00, 0x00, 0x00, 0x00, 0x00, 0x00, 0x00, 0x00,
      0x00, 0x00, 0x00, 0x00, 0x00, 0x00, 0x00, 0x00, 0x00, 0x00, 0x00, 0x00, 0x00, 0x00, 0x00, 0x00,
      0x00, 0x00, 0x00, 0x00, 0x00, 0x00, 0x00, 0x00, 0x00, 0x00, 0x00, 0x00, 0x00, 0x00, 0x00, 0x00]"
  by (simp add: pad_def be_bytes64_def upt_rec replicate_eval)

lemma words_empty:
  "map be_word (chunks 4 (pad [])) =
     [0x80000000, 0x00000000, 0x00000000, 0x00000000, 0x00000000, 0x00000000, 0x00000000, 0x00000000,
      0x00000000, 0x00000000, 0x00000000, 0x00000000, 0x00000000, 0x00000000, 0x00000000, 0x00000000]"
  unfolding pad_empty
  by (simp del: chunks.simps be_word.simps add: chunks_4 be_word_4 chunks.simps(1))

lemma schedule_empty:
  "schedule 48 (map be_word (chunks 4 (pad []))) =
     [0x80000000, 0x00000000, 0x00000000, 0x00000000, 0x00000000, 0x00000000, 0x00000000, 0x00000000,
      0x00000000, 0x00000000, 0x00000000, 0x00000000, 0x00000000, 0x00000000, 0x00000000, 0x00000000,
      0x80000000, 0x00000000, 0x00205000, 0x00000000, 0x22000800, 0x00000000, 0x05089542, 0x80000000,
      0x58080000, 0x0040a000, 0x00162505, 0x66001800, 0xd6222580, 0x14225508, 0xd645f95c, 0xc9282000,
      0xc3f10094, 0x284ca766, 0x06886dc6, 0xa37bf116, 0x717cbe96, 0xfec2d74a, 0xa7b67f00, 0x811596a2,
      0x98a6e768, 0x03b20c82, 0x5d1da7c9, 0xb156b935, 0xc3ddca11, 0x249c107f, 0xc48d24ef, 0x5de54c30,
      0xdefece65, 0x2ca1480d, 0x3c15332c, 0x01cec9ad, 0x160cccd0, 0x0bacda98, 0x361b8fe0, 0xd2320ba6,
      0x029b7007, 0x7546587c, 0x07f54f39, 0xf808ddc3, 0xdcca7608, 0x5e427188, 0x44bcec5d, 0x3b5ec49b]"
  unfolding words_empty
  by (simp add: schedule_eval schedule_last sigma0_def sigma1_def rotr_eval
      del: schedule.simps)

lemma rounds_empty:
  "foldl round256 H256_init (zip K256 (schedule 48 (map be_word (chunks 4 (pad []))))) =
     HS 0x79a6dddb 0xdd946d8f 0x5e8d0156 0xf41fc3ea 0xd69fef65 0xc9962ac0 0x8511bf70 0x1c71eb3c"
  unfolding schedule_empty
  by (simp add: K256_def H256_init_def round256_eval Sigma0_def Sigma1_def Ch_def Maj_def
      rotr_eval)

lemma sha256_empty:
  "sha256 [] =
     HS 0xe3b0c442 0x98fc1c14 0x9afbf4c8 0x996fb924 0x27ae41e4 0x649b934c 0xa495991b 0x7852b855"
proof -
  have c: "chunks 64 (pad []) = [pad []]"
    unfolding pad_empty by simp
  have "sha256 [] =
      hs_add H256_init
        (foldl round256 H256_init
           (zip K256 (schedule 48 (map be_word (chunks 4 (pad []))))))"
    by (simp add: sha256_def compress_def c)
  also have "\<dots> = hs_add H256_init (HS 0x79a6dddb 0xdd946d8f 0x5e8d0156 0xf41fc3ea 0xd69fef65 0xc9962ac0 0x8511bf70 0x1c71eb3c)"
    by (simp only: rounds_empty)
  also have "\<dots> = HS 0xe3b0c442 0x98fc1c14 0x9afbf4c8 0x996fb924 0x27ae41e4 0x649b934c 0xa495991b 0x7852b855"
    by (simp add: H256_init_def hs_add_def)
  finally show ?thesis .
qed

lemma digest_empty:
  "generate_sha256_hash [] =
     ''e3b0c44298fc1c149afbf4c8996fb92427ae41e4649b934ca495991b7852b855''"
  by (simp add: generate_sha256_hash_def sha256_empty hexdigest_def hex_word_def hex_digit_def
      upt_rec)

lemma pad_abcd:
  "pad abcd =
     [0x41, 0x42, 0x43, 0x44, 0x80, 0x00, 0x00, 0x00, 0x00, 0x00, 0x00, 0x00, 0x00, 0x00, 0x00, 0x00,
      0x00, 0x00, 0x00, 0x00, 0x00, 0x00, 0x00, 0x00, 0x00, 0x00, 0x00, 0x00, 0x00, 0x00, 0x00, 0x00,
      0x00, 0x00, 0x00, 0x00, 0x00, 0x00, 0x00, 0x00, 0x00, 0x00, 0x00, 0x00, 0x00, 0x00, 0x00, 0x00,
      0x00, 0x00, 0x00, 0x00, 0x00, 0x00, 0x00, 0x00, 0x00, 0x00, 0x00, 0x00, 0x00, 0x00, 0x00, 0x20]"
  by (simp add: pad_def be_bytes64_def upt_rec replicate_eval abcd_def)

lemma words_abcd:
  "map be_word (chunks 4 (pad abcd)) =
     [0x41424344, 0x80000000, 0x00000000, 0x00000000, 0x00000000, 0x00000000, 0x00000000, 0x00000000,
      0x00000000, 0x00000000, 0x00000000, 0x00000000, 0x00000000, 0x00000000, 0x00000000, 0x00000020]"
  unfolding pad_abcd
  by (simp del: chunks.simps be_word.simps add: chunks_4 be_word_4 chunks.simps(1))

lemma schedule_abcd:
  "schedule 48 (map be_word (chunks 4 (pad abcd))) =
     [0x41424344, 0x80000000, 0x00000000, 0x00000000, 0x00000000, 0x00000000, 0x00000000, 0x00000000,
      0x00000000, 0x00000000, 0x00000000, 0x00000000, 0x00000000, 0x00000000, 0x00000000, 0x00000020,
      0x52426344, 0x80140000, 0x7dde33f1, 0x80205508, 0xdf99e6d8, 0x20055801, 0xcf809266, 0x594b1898,
      0xdb605e14, 0x6d27a93b, 0xa51e83d3, 0x013b79b5, 0xb1c0398d, 0xa36d00ca, 0xb52e3772, 0x15f3190d,
      0xade6dc43, 0x7690fdc2, 0x48e2f2a1, 0x671f992a, 0xfa5e8724, 0x05d3e885, 0x767a04a8, 0xb5e5492a,
      0x25fe6885, 0xd6c51532, 0xb9e1c062, 0x26dd6d0a, 0x50c16891, 0xb3281e2b, 0xe338f32d, 0x6ee5e4d1,
      0xa1c71923, 0x7681ab84, 0x9dc58a98, 0x90066b32, 0x124f6d3c, 0xc0f1a04d, 0x523ad0fc, 0xd0a13f19,
      0x092edf34, 0xcf3defc9, 0x4a3b9865, 0xf5f8e73b, 0x17694acd, 0xf01500ee, 0x164a523b, 0x2d9eecb4]"
  unfolding words_abcd
  by (simp add: schedule_eval schedule_last sigma0_def sigma1_def rotr_eval
      del: schedule.simps)

lemma rounds_abcd:
  "foldl round256 H256_init (zip K256 (schedule 48 (map be_word (chunks 4 (pad abcd))))) =
     HS 0x77242af3 0x13dda42d 0x1a1c6277 0x976d43ff 0xfb40a59d 0xe73f1723 0xaa13ae7f 0xa6f1695e"
  unfolding schedule_abcd
  by (simp add: K256_def H256_init_def round256_eval Sigma0_def Sigma1_def Ch_def Maj_def
      rotr_eval)

lemma sha256_abcd:
  "sha256 abcd =
     HS 0xe12e115a 0xcf4552b2 0x568b55e9 0x3cbd3939 0x4c4ef81c 0x82447faf 0xc997882a 0x02d23677"
proof -
  have c: "chunks 64 (pad abcd) = [pad abcd]"
    unfolding pad_abcd by simp
  have "sha256 abcd =
      hs_add H256_init
        (foldl round256 H256_init
           (zip K256 (schedule 48 (map be_word (chunks 4 (pad abcd))))))"
    by (simp add: sha256_def compress_def c)
  also have "\<dots> = hs_add H256_init (HS 0x77242af3 0x13dda42d 0x1a1c6277 0x976d43ff 0xfb40a59d 0xe73f1723 0xaa13ae7f 0xa6f1695e)"
    by (simp only: rounds_abcd)
  also have "\<dots> = HS 0xe12e115a 0xcf4552b2 0x568b55e9 0x3cbd3939 0x4c4ef81c 0x82447faf 0xc997882a 0x02d23677"
    by (simp add: H256_init_def hs_add_def)
  finally show ?thesis .
qed

lemma digest_abcd:
  "generate_sha256_hash abcd =
     ''e12e115acf4552b2568b55e93cbd39394c4ef81c82447fafc997882a02d23677''"
  by (simp add: generate_sha256_hash_def sha256_abcd hexdigest_def hex_word_def hex_digit_def
      upt_rec)

lemma pad_abcd_tampered:
  "pad [0x41, 0x42, 0x03, 0x44] =
     [0x41, 0x42, 0x03, 0x44, 0x80, 0x00, 0x00, 0x00, 0x00, 0x00, 0x00, 0x00, 0x00, 0x00, 0x00, 0x00,
      0x00, 0x00, 0x00, 0x00, 0x00, 0x00, 0x00, 0x00, 0x00, 0x00, 0x00, 0x00, 0x00, 0x00, 0x00, 0x00,
      0x00, 0x00, 0x00, 0x00, 0x00, 0x00, 0x00, 0x00, 0x00, 0x00, 0x00, 0x00, 0x00, 0x00, 0x00, 0x00,
      0x00, 0x00, 0x00, 0x00, 0x00, 0x00, 0x00, 0x00, 0x00, 0x00, 0x00, 0x00, 0x00, 0x00, 0x00, 0x20]"
  by (simp add: pad_def be_bytes64_def upt_rec replicate_eval)

lemma words_abcd_tampered:
  "map be_word (chunks 4 (pad [0x41, 0x42, 0x03, 0x44])) =
     [0x41420344, 0x80000000, 0x00000000, 0x00000000, 0x00000000, 0x00000000, 0x00000000, 0x00000000,
      0x00000000, 0x00000000, 0x00000000, 0x00000000, 0x00000000, 0x00000000, 0x00000000, 0x00000020]"
  unfolding pad_abcd_tampered
  by (simp del: chunks.simps be_word.simps add: chunks_4 be_word_4 chunks.simps(1))

lemma schedule_abcd_tampered:
  "schedule 48 (map be_word (chunks 4 (pad [0x41, 0x42, 0x03, 0x44]))) =
     [0x41420344, 0x80000000, 0x00000000, 0x00000000, 0x00000000, 0x00000000, 0x00000000, 0x00000000,
      0x00000000, 0x00000000, 0x00000000, 0x00000000, 0x00000000, 0x00000000, 0x00000000, 0x00000020,
      0x52422344, 0x80140000, 0x55de33e1, 0x80205508, 0xdf99f7d8, 0x20055801, 0xc5209262, 0x594ad898,
      0xdb607210, 0x8d27a91b, 0xb79d03c8, 0x0127f6b5, 0x41b6027e, 0xcaacfbac, 0x5ab35e09, 0xc82f9e2b,
      0xb53f7f3c, 0xb97bca29, 0xbba11880, 0x361047d8, 0xaa068017, 0x9f8a3205, 0xab31ab60, 0x944eef0a,
      0x42cb2205, 0xba788449, 0x7a8bf906, 0x71dc2744, 0xe3297996, 0xdb96c4b9, 0x2be313b4, 0x75faaf8e,
      0x12364c5d, 0x86569de1, 0xc4770c82, 0x50b85f37, 0x81cca20c, 0xaebf2f0b, 0xa2f7e411, 0xe331eb60,
      0x7ceda7e1, 0x45ba28bf, 0xc1612390, 0xb4c8b33b, 0x215e4d70, 0x782cf644, 0xb7ea7ffb, 0x0452f13b]"
  unfolding words_abcd_tampered
  by (simp add: schedule_eval schedule_last sigma0_def sigma1_def rotr_eval
      del: schedule.simps)

lemma rounds_abcd_tampered:
  "foldl round256 H256_init (zip K256 (schedule 48 (map be_word (chunks 4 (pad [0x41, 0x42, 0x03, 0x44]))))) =
     HS 0x4b1b365c 0xc62592fa 0x7023bee0 0x74ec4007 0x5e8baa11 0xcbcfa569 0x4db87d6a 0x3c545c67"
  unfolding schedule_abcd_tampered
  by (simp add: K256_def H256_init_def round256_eval Sigma0_def Sigma1_def Ch_def Maj_def
      rotr_eval)

lemma sha256_abcd_tampered:
  "sha256 [0x41, 0x42, 0x03, 0x44] =
     HS 0xb5251cc3 0x818d417f 0xac92b252 0x1a3c3541 0xaf99fc90 0x66d50df5 0x6d3c5715 0x98352980"
proof -
  have c: "chunks 64 (pad [0x41, 0x42, 0x03, 0x44]) = [pad [0x41, 0x42, 0x03, 0x44]]"
    unfolding pad_abcd_tampered by simp
  have "sha256 [0x41, 0x42, 0x03, 0x44] =
      hs_add H256_init
        (foldl round256 H256_init
           (zip K256 (schedule 48 (map be_word (chunks 4 (pad [0x41, 0x42, 0x03, 0x44]))))))"
    by (simp add: sha256_def compress_def c)
  also have "\<dots> = hs_add H256_init (HS 0x4b1b365c 0xc62592fa 0x7023bee0 0x74ec4007 0x5e8baa11 0xcbcfa569 0x4db87d6a 0x3c545c67)"
    by (simp only: rounds_abcd_tampered)
  also have "\<dots> = HS 0xb5251cc3 0x818d417f 0xac92b252 0x1a3c3541 0xaf99fc90 0x66d50df5 0x6d3c5715 0x98352980"
    by (simp add: H256_init_def hs_add_def)
  finally show ?thesis .
qed

lemma digest_abcd_tampered:
  "generate_sha256_hash [0x41, 0x42, 0x03, 0x44] =
     ''b5251cc3818d417fac92b2521a3c3541af99fc9066d50df56d3c571598352980''"
  by (simp add: generate_sha256_hash_def sha256_abcd_tampered hexdigest_def hex_word_def hex_digit_def
      upt_rec)

lemma pad_abc:
  "pad abc =
     [0x61, 0x62, 0x63, 0x80, 0x00, 0x00, 0x00, 0x00, 0x00, 0x00, 0x00, 0x00, 0x00, 0x00, 0x00, 0x00,
      0x00, 0x00, 0x00, 0x00, 0x00, 0x00, 0x00, 0x00, 0x00, 0x00, 0x00, 0x00, 0x00, 0x00, 0x00, 0x00,
      0x00, 0x00, 0x00, 0x00, 0x00, 0x00, 0x00, 0x00, 0x00, 0x00, 0x00, 0x00, 0x00, 0x00, 0x00, 0x00,
      0x00, 0x00, 0x00, 0x00, 0x00, 0x00, 0x00, 0x00, 0x00, 0x00, 0x00, 0x00, 0x00, 0x00, 0x00, 0x18]"
  by (simp add: pad_def be_bytes64_def upt_rec replicate_eval abc_def ascii_def)

lemma blocks_abc:
  "chunks 64 (pad abc) =
     [[0x61, 0x62, 0x63, 0x80, 0x00, 0x00, 0x00, 0x00, 0x00, 0x00, 0x00, 0x00, 0x00, 0x00, 0x00, 0x00,
       0x00, 0x00, 0x00, 0x00, 0x00, 0x00, 0x00, 0x00, 0x00, 0x00, 0x00, 0x00, 0x00, 0x00, 0x00, 0x00,
       0x00, 0x00, 0x00, 0x00, 0x00, 0x00, 0x00, 0x00, 0x00, 0x00, 0x00, 0x00, 0x00, 0x00, 0x00, 0x00,
       0x00, 0x00, 0x00, 0x00, 0x00, 0x00, 0x00, 0x00, 0x00, 0x00, 0x00, 0x00, 0x00, 0x00, 0x00, 0x18]]"
  unfolding pad_abc by simp

lemma words_abc_1:
  "map be_word (chunks 4
     [0x61, 0x62, 0x63, 0x80, 0x00, 0x00, 0x00, 0x00, 0x00, 0x00, 0x00, 0x00, 0x00, 0x00, 0x00, 0x00,
      0x00, 0x00, 0x00, 0x00, 0x00, 0x00, 0x00, 0x00, 0x00, 0x00, 0x00, 0x00, 0x00, 0x00, 0x00, 0x00,
      0x00, 0x00, 0x00, 0x00, 0x00, 0x00, 0x00, 0x00, 0x00, 0x00, 0x00, 0x00, 0x00, 0x00, 0x00, 0x00,
      0x00, 0x00, 0x00, 0x00, 0x00, 0x00, 0x00, 0x00, 0x00, 0x00, 0x00, 0x00, 0x00, 0x00, 0x00, 0x18]) =
     [0x61626380, 0x00000000, 0x00000000, 0x00000000, 0x00000000, 0x00000000, 0x00000000, 0x00000000,
      0x00000000, 0x00000000, 0x00000000, 0x00000000, 0x00000000, 0x00000000, 0x00000000, 0x00000018]"
  by (simp del: chunks.simps be_word.simps add: chunks_4 be_word_4 chunks.simps(1))

lemma schedule_abc_1:
  "schedule 48
     [0x61626380, 0x00000000, 0x00000000, 0x00000000, 0x00000000, 0x00000000, 0x00000000, 0x00000000,
      0x00000000, 0x00000000, 0x00000000, 0x00000000, 0x00000000, 0x00000000, 0x00000000, 0x00000018] =
     [0x61626380, 0x00000000, 0x00000000, 0x00000000, 0x00000000, 0x00000000, 0x00000000, 0x00000000,
      0x00000000, 0x00000000, 0x00000000, 0x00000000, 0x00000000, 0x00000000, 0x00000000, 0x00000018,
      0x61626380, 0x000f0000, 0x7da86405, 0x600003c6, 0x3e9d7b78, 0x0183fc00, 0x12dcbfdb, 0xe2e2c38e,
      0xc8215c1a, 0xb73679a2, 0xe5bc3909, 0x32663c5b, 0x9d209d67, 0xec8726cb, 0x702138a4, 0xd3b7973b,
      0x93f5997f, 0x3b68ba73, 0xaff4ffc1, 0xf10a5c62, 0x0a8b3996, 0x72af830a, 0x9409e33e, 0x24641522,
      0x9f47bf94, 0xf0a64f5a, 0x3e246a79, 0x27333ba3, 0x0c4763f2, 0x840abf27, 0x7a290d5d, 0x065c43da,
      0xfb3e89cb, 0xcc7617db, 0xb9e66c34, 0xa9993667, 0x84badedd, 0xc21462bc, 0x1487472c, 0xb20f7a99,
      0xef57b9cd, 0xebe6b238, 0x9fe3095e, 0x78bc8d4b, 0xa43fcf15, 0x668b2ff8, 0xeeaba2cc, 0x12b1edeb]"
  by (simp add: schedule_eval schedule_last sigma0_def sigma1_def rotr_eval
      del: schedule.simps)

lemma rounds_abc_1:
  "foldl round256 (HS 0x6a09e667 0xbb67ae85 0x3c6ef372 0xa54ff53a 0x510e527f 0x9b05688c 0x1f83d9ab 0x5be0cd19)
     (zip K256
     [0x61626380, 0x00000000, 0x00000000, 0x00000000, 0x00000000, 0x00000000, 0x00000000, 0x00000000,
      0x00000000, 0x00000000, 0x00000000, 0x00000000, 0x00000000, 0x00000000, 0x00000000, 0x00000018,
      0x61626380, 0x000f0000, 0x7da86405, 0x600003c6, 0x3e9d7b78, 0x0183fc00, 0x12dcbfdb, 0xe2e2c38e,
      0xc8215c1a, 0xb73679a2, 0xe5bc3909, 0x32663c5b, 0x9d209d67, 0xec8726cb, 0x702138a4, 0xd3b7973b,
      0x93f5997f, 0x3b68ba73, 0xaff4ffc1, 0xf10a5c62, 0x0a8b3996, 0x72af830a, 0x9409e33e, 0x24641522,
      0x9f47bf94, 0xf0a64f5a, 0x3e246a79, 0x27333ba3, 0x0c4763f2, 0x840abf27, 0x7a290d5d, 0x065c43da,
      0xfb3e89cb, 0xcc7617db, 0xb9e66c34, 0xa9993667, 0x84badedd, 0xc21462bc, 0x1487472c, 0xb20f7a99,
      0xef57b9cd, 0xebe6b238, 0x9fe3095e, 0x78bc8d4b, 0xa43fcf15, 0x668b2ff8, 0xeeaba2cc, 0x12b1edeb]) =
     HS 0x506e3058 0xd39a2165 0x04d24d6c 0xb85e2ce9 0x5ef50f24 0xfb121210 0x948d25b6 0x961f4894"
  by (simp add: K256_def round256_eval Sigma0_def Sigma1_def Ch_def Maj_def rotr_eval)

lemma compress_abc_1:
  "compress (HS 0x6a09e667 0xbb67ae85 0x3c6ef372 0xa54ff53a 0x510e527f 0x9b05688c 0x1f83d9ab 0x5be0cd19)
     [0x61, 0x62, 0x63, 0x80, 0x00, 0x00, 0x00, 0x00, 0x00, 0x00, 0x00, 0x00, 0x00, 0x00, 0x00, 0x00,
      0x00, 0x00, 0x00, 0x00, 0x00, 0x00, 0x00, 0x00, 0x00, 0x00, 0x00, 0x00, 0x00, 0x00, 0x00, 0x00,
      0x00, 0x00, 0x00, 0x00, 0x00, 0x00, 0x00, 0x00, 0x00, 0x00, 0x00, 0x00, 0x00, 0x00, 0x00, 0x00,
      0x00, 0x00, 0x00, 0x00, 0x00, 0x00, 0x00, 0x00, 0x00, 0x00, 0x00, 0x00, 0x00, 0x00, 0x00, 0x18] =
     HS 0xba7816bf 0x8f01cfea 0x414140de 0x5dae2223 0xb00361a3 0x96177a9c 0xb410ff61 0xf20015ad"
  by (simp only: compress_def Let_def words_abc_1 schedule_abc_1 rounds_abc_1)
    (simp add: hs_add_def)

lemma sha256_abc:
  "sha256 abc =
     HS 0xba7816bf 0x8f01cfea 0x414140de 0x5dae2223 0xb00361a3 0x96177a9c 0xb410ff61 0xf20015ad"
  by (simp only: sha256_def blocks_abc H256_init_def foldl.simps compress_abc_1)

lemma digest_abc:
  "generate_sha256_hash abc =
     ''ba7816bf8f01cfea414140de5dae2223b00361a396177a9cb410ff61f20015ad''"
  by (simp add: generate_sha256_hash_def sha256_abc hexdigest_def hex_word_def hex_digit_def
      upt_rec)

lemma pad_two_blocks:
  "pad two_blocks =
     [0x61, 0x62, 0x63, 0x64, 0x62, 0x63, 0x64, 0x65, 0x63, 0x64, 0x65, 0x66, 0x64, 0x65, 0x66, 0x67,
      0x65, 0x66, 0x67, 0x68, 0x66, 0x67, 0x68, 0x69, 0x67, 0x68, 0x69, 0x6a, 0x68, 0x69, 0x6a, 0x6b,
      0x69, 0x6a, 0x6b, 0x6c, 0x6a, 0x6b, 0x6c, 0x6d, 0x6b, 0x6c, 0x6d, 0x6e, 0x6c, 0x6d, 0x6e, 0x6f,
      0x6d, 0x6e, 0x6f, 0x70, 0x6e, 0x6f, 0x70, 0x71, 0x80, 0x00, 0x00, 0x00, 0x00, 0x00, 0x00, 0x00,
      0x00, 0x00, 0x00, 0x00, 0x00, 0x00, 0x00, 0x00, 0x00, 0x00, 0x00, 0x00, 0x00, 0x00, 0x00, 0x00,
      0x00, 0x00, 0x00, 0x00, 0x00, 0x00, 0x00, 0x00, 0x00, 0x00, 0x00, 0x00, 0x00, 0x00, 0x00, 0x00,
      0x00, 0x00, 0x00, 0x00, 0x00, 0x00, 0x00, 0x00, 0x00, 0x00, 0x00, 0x00, 0x00, 0x00, 0x00, 0x00,
      0x00, 0x00, 0x00, 0x00, 0x00, 0x00, 0x00, 0x00, 0x00, 0x00, 0x00, 0x00, 0x00, 0x00, 0x01, 0xc0]"
  by (simp add: pad_def be_bytes64_def upt_rec replicate_eval two_blocks_def ascii_def)

lemma blocks_two_blocks:
  "chunks 64 (pad two_blocks) =
     [[0x61, 0x62, 0x63, 0x64, 0x62, 0x63, 0x64, 0x65, 0x63, 0x64, 0x65, 0x66, 0x64, 0x65, 0x66, 0x67,
       0x65, 0x66, 0x67, 0x68, 0x66, 0x67, 0x68, 0x69, 0x67, 0x68, 0x69, 0x6a, 0x68, 0x69, 0x6a, 0x6b,
       0x69, 0x6a, 0x6b, 0x6c, 0x6a, 0x6b, 0x6c, 0x6d, 0x6b, 0x6c, 0x6d, 0x6e, 0x6c, 0x6d, 0x6e, 0x6f,
       0x6d, 0x6e, 0x6f, 0x70, 0x6e, 0x6f, 0x70, 0x71, 0x80, 0x00, 0x00, 0x00, 0x00, 0x00, 0x00, 0x00],
      [0x00, 0x00, 0x00, 0x00, 0x00, 0x00, 0x00, 0x00, 0x00, 0x00, 0x00, 0x00, 0x00, 0x00, 0x00, 0x00,
       0x00, 0x00, 0x00, 0x00, 0x00, 0x00, 0x00, 0x00, 0x00, 0x00, 0x00, 0x00, 0x00, 0x00, 0x00, 0x00,
       0x00, 0x00, 0x00, 0x00, 0x00, 0x00, 0x00, 0x00, 0x00, 0x00, 0x00, 0x00, 0x00, 0x00, 0x00, 0x00,
       0x00, 0x00, 0x00, 0x00, 0x00, 0x00, 0x00, 0x00, 0x00, 0x00, 0x00, 0x00, 0x00, 0x00, 0x01, 0xc0]]"
  unfolding pad_two_blocks by simp

lemma words_two_blocks_1:
  "map be_word (chunks 4
     [0x61, 0x62, 0x63, 0x64, 0x62, 0x63, 0x64, 0x65, 0x63, 0x64, 0x65, 0x66, 0x64, 0x65, 0x66, 0x67,
      0x65, 0x66, 0x67, 0x68, 0x66, 0x67, 0x68, 0x69, 0x67, 0x68, 0x69, 0x6a, 0x68, 0x69, 0x6a, 0x6b,
      0x69, 0x6a, 0x6b, 0x6c, 0x6a, 0x6b, 0x6c, 0x6d, 0x6b, 0x6c, 0x6d, 0x6e, 0x6c, 0x6d, 0x6e, 0x6f,
      0x6d, 0x6e, 0x6f, 0x70, 0x6e, 0x6f, 0x70, 0x71, 0x80, 0x00, 0x00, 0x00, 0x00, 0x00, 0x00, 0x00]) =
     [0x61626364, 0x62636465, 0x63646566, 0x64656667, 0x65666768, 0x66676869, 0x6768696a, 0x68696a6b,
      0x696a6b6c, 0x6a6b6c6d, 0x6b6c6d6e, 0x6c6d6e6f, 0x6d6e6f70, 0x6e6f7071, 0x80000000, 0x00000000]"
  by (simp del: chunks.simps be_word.simps add: chunks_4 be_word_4 chunks.simps(1))

lemma schedule_two_blocks_1:
  "schedule 48
     [0x61626364, 0x62636465, 0x63646566, 0x64656667, 0x65666768, 0x66676869, 0x6768696a, 0x68696a6b,
      0x696a6b6c, 0x6a6b6c6d, 0x6b6c6d6e, 0x6c6d6e6f, 0x6d6e6f70, 0x6e6f7071, 0x80000000, 0x00000000] =
     [0x61626364, 0x62636465, 0x63646566, 0x64656667, 0x65666768, 0x66676869, 0x6768696a, 0x68696a6b,
      0x696a6b6c, 0x6a6b6c6d, 0x6b6c6d6e, 0x6c6d6e6f, 0x6d6e6f70, 0x6e6f7071, 0x80000000, 0x00000000,
      0xeb8012ad, 0xa7c3ae92, 0x76e93ba2, 0xba42e743, 0x92a92204, 0xd847e75e, 0x9e160036, 0xb280a7cb,
      0xddeb1516, 0xf36586f4, 0x969cd048, 0xe959d99d, 0x6accc0ec, 0xf54cb098, 0x2af1b2da, 0xee59c4c9,
      0xa835e16a, 0x1dff4429, 0xd6e15959, 0xc397cd6e, 0x6f1801ca, 0x21574205, 0x35ff7a84, 0x9743ee78,
      0xe44183e7, 0x0d09f00d, 0x9c89af54, 0x042d5bef, 0x71f134d0, 0x0f94f463, 0x7e49dc63, 0x6f65c997,
      0x0b706583, 0x179312ca, 0x503054e9, 0xba125c39, 0x7e9392c9, 0xd5cbaa1e, 0x78e0585d, 0xf6e7611c,
      0x8ac830ce, 0x8b47a303, 0xfd6e627f, 0x8c6e2c6a, 0x4001adf1, 0x1a3dd097, 0xa9df6f62, 0x6aa60a39]"
  by (simp add: schedule_eval schedule_last sigma0_def sigma1_def rotr_eval
      del: schedule.simps)

lemma rounds_two_blocks_1:
  "foldl round256 (HS 0x6a09e667 0xbb67ae85 0x3c6ef372 0xa54ff53a 0x510e527f 0x9b05688c 0x1f83d9ab 0x5be0cd19)
     (zip K256
     [0x61626364, 0x62636465, 0x63646566, 0x64656667, 0x65666768, 0x66676869, 0x6768696a, 0x68696a6b,
      0x696a6b6c, 0x6a6b6c6d, 0x6b6c6d6e, 0x6c6d6e6f, 0x6d6e6f70, 0x6e6f7071, 0x80000000, 0x00000000,
      0xeb8012ad, 0xa7c3ae92, 0x76e93ba2, 0xba42e743, 0x92a92204, 0xd847e75e, 0x9e160036, 0xb280a7cb,
      0xddeb1516, 0xf36586f4, 0x969cd048, 0xe959d99d, 0x6accc0ec, 0xf54cb098, 0x2af1b2da, 0xee59c4c9,
      0xa835e16a, 0x1dff4429, 0xd6e15959, 0xc397cd6e, 0x6f1801ca, 0x21574205, 0x35ff7a84, 0x9743ee78,
      0xe44183e7, 0x0d09f00d, 0x9c89af54, 0x042d5bef, 0x71f134d0, 0x0f94f463, 0x7e49dc63, 0x6f65c997,
      0x0b706583, 0x179312ca, 0x503054e9, 0xba125c39, 0x7e9392c9, 0xd5cbaa1e, 0x78e0585d, 0xf6e7611c,
      0x8ac830ce, 0x8b47a303, 0xfd6e627f, 0x8c6e2c6a, 0x4001adf1, 0x1a3dd097, 0xa9df6f62, 0x6aa60a39]) =
     HS 0x1bdc6f6f 0x86126910 0xf6f443f8 0xbcfce922 0x25d2430a 0x2fc08f85 0xacc75916 0x962d8621"
  by (simp add: K256_def round256_eval Sigma0_def Sigma1_def Ch_def Maj_def rotr_eval)

lemma compress_two_blocks_1:
  "compress (HS 0x6a09e667 0xbb67ae85 0x3c6ef372 0xa54ff53a 0x510e527f 0x9b05688c 0x1f83d9ab 0x5be0cd19)
     [0x61, 0x62, 0x63, 0x64, 0x62, 0x63, 0x64, 0x65, 0x63, 0x64, 0x65, 0x66, 0x64, 0x65, 0x66, 0x67,
      0x65, 0x66, 0x67, 0x68, 0x66, 0x67, 0x68, 0x69, 0x67, 0x68, 0x69, 0x6a, 0x68, 0x69, 0x6a, 0x6b,
      0x69, 0x6a, 0x6b, 0x6c, 0x6a, 0x6b, 0x6c, 0x6d, 0x6b, 0x6c, 0x6d, 0x6e, 0x6c, 0x6d, 0x6e, 0x6f,
      0x6d, 0x6e, 0x6f, 0x70, 0x6e, 0x6f, 0x70, 0x71, 0x80, 0x00, 0x00, 0x00, 0x00, 0x00, 0x00, 0x00] =
     HS 0x85e655d6 0x417a1795 0x3363376a 0x624cde5c 0x76e09589 0xcac5f811 0xcc4b32c1 0xf20e533a"
  by (simp only: compress_def Let_def words_two_blocks_1 schedule_two_blocks_1 rounds_two_blocks_1)
    (simp add: hs_add_def)

lemma words_two_blocks_2:
  "map be_word (chunks 4
     [0x00, 0x00, 0x00, 0x00, 0x00, 0x00, 0x00, 0x00, 0x00, 0x00, 0x00, 0x00, 0x00, 0x00, 0x00, 0x00,
      0x00, 0x00, 0x00, 0x00, 0x00, 0x00, 0x00, 0x00, 0x00, 0x00, 0x00, 0x00, 0x00, 0x00, 0x00, 0x00,
      0x00, 0x00, 0x00, 0x00, 0x00, 0x00, 0x00, 0x00, 0x00, 0x00, 0x00, 0x00, 0x00, 0x00, 0x00, 0x00,
      0x00, 0x00, 0x00, 0x00, 0x00, 0x00, 0x00, 0x00, 0x00, 0x00, 0x00, 0x00, 0x00, 0x00, 0x01, 0xc0]) =
     [0x00000000, 0x00000000, 0x00000000, 0x00000000, 0x00000000, 0x00000000, 0x00000000, 0x00000000,
      0x00000000, 0x00000000, 0x00000000, 0x00000000, 0x00000000, 0x00000000, 0x00000000, 0x000001c0]"
  by (simp del: chunks.simps be_word.simps add: chunks_4 be_word_4 chunks.simps(1))

lemma schedule_two_blocks_2:
  "schedule 48
     [0x00000000, 0x00000000, 0x00000000, 0x00000000, 0x00000000, 0x00000000, 0x00000000, 0x00000000,
      0x00000000, 0x00000000, 0x00000000, 0x00000000, 0x00000000, 0x00000000, 0x00000000, 0x000001c0] =
     [0x00000000, 0x00000000, 0x00000000, 0x00000000, 0x00000000, 0x00000000, 0x00000000, 0x00000000,
      0x00000000, 0x00000000, 0x00000000, 0x00000000, 0x00000000, 0x00000000, 0x00000000, 0x000001c0,
      0x00000000, 0x00d80000, 0x00000000, 0x00003677, 0x00000000, 0x1df5600d, 0x000001c0, 0x1c00501c,
      0x01b00000, 0x220a8d94, 0x0000a365, 0x177017e7, 0x63d38035, 0x090ab713, 0x4c7539ca, 0x0f19a8c9,
      0x5df4b0c4, 0xe257036a, 0xc97bb6f1, 0xc5b46f4d, 0xf8253c4e, 0xa558d189, 0x78696285, 0xed07117f,
      0x107358f6, 0x390ae496, 0x565010a2, 0xc51d7d44, 0x9e74c972, 0x6614b561, 0x30fc129d, 0x9ac684a8,
      0x2b658dbd, 0xe290f793, 0x9eebb24c, 0x9713b5de, 0x41061ab7, 0xe022e23b, 0x0772079e, 0x7de22d9c,
      0xc8b83778, 0x75a79849, 0xd93dbddb, 0x0a036c9d, 0xcb4f6ac6, 0x823f97e2, 0xea2f2a7a, 0xb9018b52]"
  by (simp add: schedule_eval schedule_last sigma0_def sigma1_def rotr_eval
      del: schedule.simps)

lemma rounds_two_blocks_2:
  "foldl round256 (HS 0x85e655d6 0x417a1795 0x3363376a 0x624cde5c 0x76e09589 0xcac5f811 0xcc4b32c1 0xf20e533a)
     (zip K256
     [0x00000000, 0x00000000, 0x00000000, 0x00000000, 0x00000000, 0x00000000, 0x00000000, 0x00000000,
      0x00000000, 0x00000000, 0x00000000, 0x00000000, 0x00000000, 0x00000000, 0x00000000, 0x000001c0,
      0x00000000, 0x00d80000, 0x00000000, 0x00003677, 0x00000000, 0x1df5600d, 0x000001c0, 0x1c00501c,
      0x01b00000, 0x220a8d94, 0x0000a365, 0x177017e7, 0x63d38035, 0x090ab713, 0x4c7539ca, 0x0f19a8c9,
      0x5df4b0c4, 0xe257036a, 0xc97bb6f1, 0xc5b46f4d, 0xf8253c4e, 0xa558d189, 0x78696285, 0xed07117f,
      0x107358f6, 0x390ae496, 0x565010a2, 0xc51d7d44, 0x9e74c972, 0x6614b561, 0x30fc129d, 0x9ac684a8,
      0x2b658dbd, 0xe290f793, 0x9eebb24c, 0x9713b5de, 0x41061ab7, 0xe022e23b, 0x0772079e, 0x7de22d9c,
      0xc8b83778, 0x75a79849, 0xd93dbddb, 0x0a036c9d, 0xcb4f6ac6, 0x823f97e2, 0xea2f2a7a, 0xb9018b52]) =
     HS 0x9ea7148b 0x908c2123 0xb25cef29 0xa9f181dd 0x2c5c4ed0 0x9a392956 0x2aa1bb13 0x27ccb387"
  by (simp add: K256_def round256_eval Sigma0_def Sigma1_def Ch_def Maj_def rotr_eval)

lemma compress_two_blocks_2:
  "compress (HS 0x85e655d6 0x417a1795 0x3363376a 0x624cde5c 0x76e09589 0xcac5f811 0xcc4b32c1 0xf20e533a)
     [0x00, 0x00, 0x00, 0x00, 0x00, 0x00, 0x00, 0x00, 0x00, 0x00, 0x00, 0x00, 0x00, 0x00, 0x00, 0x00,
      0x00, 0x00, 0x00, 0x00, 0x00, 0x00, 0x00, 0x00, 0x00, 0x00, 0x00, 0x00, 0x00, 0x00, 0x00, 0x00,
      0x00, 0x00, 0x00, 0x00, 0x00, 0x00, 0x00, 0x00, 0x00, 0x00, 0x00, 0x00, 0x00, 0x00, 0x00, 0x00,
      0x00, 0x00, 0x00, 0x00, 0x00, 0x00, 0x00, 0x00, 0x00, 0x00, 0x00, 0x00, 0x00, 0x00, 0x01, 0xc0] =
     HS 0x248d6a61 0xd20638b8 0xe5c02693 0x0c3e6039 0xa33ce459 0x64ff2167 0xf6ecedd4 0x19db06c1"
  by (simp only: compress_def Let_def words_two_blocks_2 schedule_two_blocks_2 rounds_two_blocks_2)
    (simp add: hs_add_def)

lemma sha256_two_blocks:
  "sha256 two_blocks =
     HS 0x248d6a61 0xd20638b8 0xe5c02693 0x0c3e6039 0xa33ce459 0x64ff2167 0xf6ecedd4 0x19db06c1"
  by (simp only: sha256_def blocks_two_blocks H256_init_def foldl.simps compress_two_blocks_1 compress_two_blocks_2)

lemma digest_two_blocks:
  "generate_sha256_hash two_blocks =
     ''248d6a61d20638b8e5c026930c3e6039a33ce45964ff2167f6ecedd419db06c1''"
  by (simp add: generate_sha256_hash_def sha256_two_blocks hexdigest_def hex_word_def hex_digit_def
      upt_rec)

text \<open>
  C3. For every byte sequence, the empty one included, the hasher returns the digest that
  the SHA-256 algorithm of the standard computes from the values of the bytes; the digest
  has exactly 64 characters, each of them one of \<open>0123456789abcdef\<close>. The digest is
  thereby a function of the byte values alone: no state, seed or time enters it, and any
  two inputs with the same bytes have the same digest. On the empty input and on the two
  messages of the standard's examples, of one and of two blocks, the digest is the one
  the standard gives.
\<close>

theorem generate_sha256_hash_digest:
  "generate_sha256_hash data = sha256_hex_spec (map unat data)
   \<and> length (generate_sha256_hash data) = 64
   \<and> set (generate_sha256_hash data) \<subseteq> set ''0123456789abcdef''
   \<and> (\<forall>other. map unat other = map unat data \<longrightarrow>
          generate_sha256_hash other = generate_sha256_hash data)
   \<and> generate_sha256_hash [] =
       ''e3b0c44298fc1c149afbf4c8996fb92427ae41e4649b934ca495991b7852b855''
   \<and> generate_sha256_hash abc =
       ''ba7816bf8f01cfea414140de5dae2223b00361a396177a9cb410ff61f20015ad''
   \<and> generate_sha256_hash two_blocks =
       ''248d6a61d20638b8e5c026930c3e6039a33ce45964ff2167f6ecedd419db06c1''"
proof -
  have "length (generate_sha256_hash data) = 64"
    by (simp add: generate_sha256_hash_def length_hexdigest)
  moreover have "set (generate_sha256_hash data) \<subseteq> set ''0123456789abcdef''"
    unfolding generate_sha256_hash_def by (rule hexdigest_lower_hex)
  moreover have "generate_sha256_hash other = generate_sha256_hash data"
    if "map unat other = map unat data" for other
    using that by (simp only: generate_sha256_hash_refines)
  ultimately show ?thesis
    using generate_sha256_hash_refines [of data] digest_empty digest_abc digest_two_blocks
    by blast
qed

theorem generate_sha256_hash_digest_witness:
  "map unat abcd = [65, 66, 67, 68]
   \<and> generate_sha256_hash abcd = sha256_hex_spec [65, 66, 67, 68]
   \<and> sha256_hex_spec [65, 66, 67, 68] =
       ''e12e115acf4552b2568b55e93cbd39394c4ef81c82447fafc997882a02d23677''
   \<and> length (generate_sha256_hash abcd) = 64
   \<and> set (generate_sha256_hash abcd) \<subseteq> set ''0123456789abcdef''
   \<and> map unat [0x41, 0x42, 0x43, 0x44 :: byte] = map unat abcd
   \<and> generate_sha256_hash [0x41, 0x42, 0x43, 0x44] = generate_sha256_hash abcd"
proof -
  have m: "map unat abcd = [65, 66, 67, 68]" by (simp add: abcd_def)
  have o: "map unat [0x41, 0x42, 0x43, 0x44 :: byte] = map unat abcd" by (simp add: abcd_def)
  have r: "generate_sha256_hash abcd = sha256_hex_spec [65, 66, 67, 68]"
    using generate_sha256_hash_digest [of abcd] unfolding m by blast
  have d: "sha256_hex_spec [65, 66, 67, 68] =
       ''e12e115acf4552b2568b55e93cbd39394c4ef81c82447fafc997882a02d23677''"
    using r digest_abcd by (simp only:)
  show ?thesis
    using m o r d generate_sha256_hash_digest [of abcd] by blast
qed

section \<open>Properties of the tamperer\<close>

lemma randint_range:
  "a \<le> b \<Longrightarrow> a \<le> fst (randint a b st) \<and> fst (randint a b st) \<le> b"
proof -
  assume ab: "a \<le> b"
  then have pos: "0 < nat (b - a + 1)" by simp
  have "entropy st 0 mod nat (b - a + 1) < nat (b - a + 1)"
    using pos by (rule mod_less_divisor)
  then have "int (entropy st 0 mod nat (b - a + 1)) < b - a + 1"
    using ab by linarith
  then show ?thesis by (simp add: randint_def)
qed

lemma word_of_int_mod_256:
  "(word_of_int (int n mod 256) :: byte) = word_of_nat (n mod 256)"
proof -
  have "int n mod 256 = int (n mod 256)" by (simp add: zmod_int)
  then show ?thesis by (simp only: of_int_of_nat_eq)
qed

lemma tamper_image_empty: "tamper_image [] st = ([], st)"
  by (simp add: tamper_image_def)

lemma tamper_image_nonempty:
  "b \<noteq> [] \<Longrightarrow>
   tamper_image b st =
     (b[entropy st 0 mod length b := of_nat (entropy st 1 mod 256)],
      st\<lparr>entropy := \<lambda>n. entropy st (Suc (Suc n))\<rparr>)"
  by (simp add: tamper_image_def randint_def Let_def nat_mod_distrib word_of_int_mod_256)

lemma length_tamper_image: "length (fst (tamper_image b st)) = length b"
  by (cases "b = []") (simp_all add: tamper_image_empty tamper_image_nonempty)

lemma tamper_image_stdout: "stdout (snd (tamper_image b st)) = stdout st"
  by (cases "b = []") (simp_all add: tamper_image_empty tamper_image_nonempty)


text \<open>
  C4. On the empty sequence the tamperer returns the empty sequence and leaves the random
  generator untouched. On a non-empty sequence \<open>b\<close>, whatever the two draws are, the
  chosen index is inside \<open>b\<close>, the chosen value is below 256, the result has the length
  of \<open>b\<close>, holds the chosen value at the chosen index and agrees with \<open>b\<close> at every other
  index; exactly two draws are consumed.
\<close>

theorem tamper_image_one_byte:
  "tamper_image [] st = ([], st)
   \<and> (b \<noteq> [] \<longrightarrow>
        (let i = entropy st 0 mod length b;
             v = entropy st 1 mod 256;
             b' = fst (tamper_image b st)
         in i < length b \<and> v < 256
            \<and> length b' = length b
            \<and> b' ! i = word_of_nat v
            \<and> (\<forall>j. j \<noteq> i \<longrightarrow> b' ! j = b ! j)
            \<and> snd (tamper_image b st) = st\<lparr>entropy := \<lambda>n. entropy st (Suc (Suc n))\<rparr>))"
  by (simp add: tamper_image_empty tamper_image_nonempty Let_def)

theorem tamper_image_one_byte_witness:
  "abcd \<noteq> []
   \<and> fst (tamper_image abcd example_state) = [0x41, 0x42, 0x03, 0x44]
   \<and> length (fst (tamper_image abcd example_state)) = length abcd"
proof -
  let ?b' = "fst (tamper_image abcd example_state)"
  have ne: "abcd \<noteq> []" by (simp add: abcd_def)
  have i: "entropy example_state 0 mod length abcd = 2"
    by (simp add: example_state_def abcd_def)
  have v: "entropy example_state 1 mod 256 = 3"
    by (simp add: example_state_def)
  have "abcd \<noteq> [] \<longrightarrow>
        (let i = entropy example_state 0 mod length abcd;
             v = entropy example_state 1 mod 256;
             b' = fst (tamper_image abcd example_state)
         in i < length abcd \<and> v < 256
            \<and> length b' = length abcd
            \<and> b' ! i = word_of_nat v
            \<and> (\<forall>j. j \<noteq> i \<longrightarrow> b' ! j = abcd ! j)
            \<and> snd (tamper_image abcd example_state)
                = example_state\<lparr>entropy := \<lambda>n. entropy example_state (Suc (Suc n))\<rparr>)"
    using tamper_image_one_byte [of example_state abcd] by (rule conjunct2)
  from this ne have "?b' ! 2 = word_of_nat 3 \<and> length ?b' = length abcd
      \<and> (\<forall>j. j \<noteq> 2 \<longrightarrow> ?b' ! j = abcd ! j)"
    unfolding Let_def i v by blast
  then have len: "length ?b' = 4" and n2: "?b' ! 2 = 3" and n0: "?b' ! 0 = 0x41"
    and n1: "?b' ! 1 = 0x42" and n3: "?b' ! 3 = 0x44"
    by (simp_all add: abcd_def)
  have "?b' = [0x41, 0x42, 0x03, 0x44]"
  proof (rule nth_equalityI)
    show "length ?b' = length [0x41, 0x42, 0x03, 0x44 :: byte]" using len by simp
  next
    fix k assume "k < length ?b'"
    then have "k = 0 \<or> k = 1 \<or> k = 2 \<or> k = 3" using len by auto
    then show "?b' ! k = [0x41, 0x42, 0x03, 0x44] ! k"
      using n0 n1 n2 n3 by auto
  qed
  then show ?thesis using ne len by (simp add: abcd_def)
qed

section \<open>Properties of the evaluator and of the batch runner\<close>


lemma image_to_binary_nonempty:
  "(fst (image_to_binary fs p st) \<noteq> []) = read_nonempty fs p"
  by (simp add: image_to_binary_def read_nonempty_def split: read_outcome.splits)

lemma tamper_image_eq_Nil: "(fst (tamper_image b st) = []) = (b = [])"
  using length_tamper_image [of b st] by (metis length_0_conv)

lemma evaluate_exit_read_empty:
  "\<not> read_nonempty fs p \<Longrightarrow>
   evaluate_exit fs p t st = (((0, 0), Read_Empty), snd (image_to_binary fs p st))"
  using image_to_binary_nonempty [of fs p st]
  by (cases "image_to_binary fs p st") (simp add: evaluate_exit_def)

lemma evaluate_exit_untampered:
  "read_nonempty fs p \<Longrightarrow> evaluate_exit fs p False st = (((1, 1), Compared), st)"
  by (auto simp add: evaluate_exit_def image_to_binary_def read_nonempty_def Let_def
      split: read_outcome.splits prod.splits)

lemma evaluate_exit_tampered:
  "read_nonempty fs p \<Longrightarrow> open_read fs p = Content b \<Longrightarrow>
   evaluate_exit fs p True st =
     (((0, if generate_sha256_hash (fst (tamper_image b st)) = generate_sha256_hash b
           then 1 else 0), Compared), snd (tamper_image b st))"
  using tamper_image_eq_Nil [of b st]
  by (auto simp add: evaluate_exit_def image_to_binary_def read_nonempty_def Let_def
      split: read_outcome.splits prod.splits)

lemma evaluate_labels:
  "fst (evaluate_binary_vs_sha256 fs p t st) = fst (fst (evaluate_exit fs p t st))"
  "snd (evaluate_binary_vs_sha256 fs p t st) = snd (evaluate_exit fs p t st)"
  by (simp_all add: evaluate_binary_vs_sha256_def split: prod.splits)

lemma evaluate_unreadable:
  "\<not> read_nonempty fs p \<Longrightarrow> fst (evaluate_binary_vs_sha256 fs p t st) = (0, 0)"
  by (simp add: evaluate_labels evaluate_exit_read_empty)

lemma evaluate_readable_untampered:
  "read_nonempty fs p \<Longrightarrow> evaluate_binary_vs_sha256 fs p False st = ((1, 1), st)"
  by (simp add: evaluate_binary_vs_sha256_def evaluate_exit_untampered)

lemma evaluate_readable_tampered:
  assumes "read_nonempty fs p"
  shows "\<exists>q. (q = 0 \<or> q = 1) \<and> fst (evaluate_binary_vs_sha256 fs p True st) = (0, q)"
proof -
  from assms obtain b where b: "open_read fs p = Content b"
    by (auto simp add: read_nonempty_def split: read_outcome.splits)
  show ?thesis
    using evaluate_exit_tampered [OF assms b, of st] by (simp add: evaluate_labels)
qed

lemma evaluate_never_false_negative:
  "fst (evaluate_binary_vs_sha256 fs p t st) \<noteq> (1, 0)"
proof (cases "read_nonempty fs p")
  case False
  then show ?thesis by (simp add: evaluate_unreadable)
next
  case True
  show ?thesis
  proof (cases t)
    case True
    with \<open>read_nonempty fs p\<close> evaluate_readable_tampered [of fs p st] show ?thesis by auto
  next
    case False
    with \<open>read_nonempty fs p\<close> show ?thesis by (simp add: evaluate_readable_untampered)
  qed
qed

lemma process_entries_skip:
  "\<not> is_image_name f \<Longrightarrow>
   process_entries fs d (f # rest) labels st = process_entries fs d rest labels st"
  by simp

lemma process_entries_step:
  "is_image_name f \<Longrightarrow>
   process_entries fs d (f # rest) (ts, ps) st =
     (let r1 = evaluate_binary_vs_sha256 fs (path_join d f) False
                 (print (''Processing original image: '' @ f) st);
          r2 = evaluate_binary_vs_sha256 fs (path_join d f) True
                 (print (''Processing tampered image: '' @ f) (snd r1))
      in process_entries fs d rest
           (ts @ [fst (fst r1), fst (fst r2)], ps @ [snd (fst r1), snd (fst r2)]) (snd r2))"
  by (simp add: Let_def split: prod.splits)

lemma process_entries_lengths:
  "length (fst (fst (process_entries fs d es (ts, ps) st)))
     = length ts + 2 * length (filter is_image_name es)
   \<and> length (snd (fst (process_entries fs d es (ts, ps) st)))
     = length ps + 2 * length (filter is_image_name es)"
proof (induction es arbitrary: ts ps st)
  case Nil
  show ?case by simp
next
  case (Cons f rest)
  show ?case
  proof (cases "is_image_name f")
    case True
    show ?thesis
      unfolding process_entries_step [OF True] Let_def
      using True by (simp add: Cons.IH)
  next
    case False
    then show ?thesis using Cons.IH [of ts ps st] by simp
  qed
qed

lemma process_entries_prefix:
  "\<exists>xs ys. fst (process_entries fs d es (ts, ps) st) = (ts @ xs, ps @ ys)"
proof (induction es arbitrary: ts ps st)
  case Nil
  show ?case by simp
next
  case (Cons f rest)
  show ?case
  proof (cases "is_image_name f")
    case True
    let ?r1 = "evaluate_binary_vs_sha256 fs (path_join d f) False
                 (print (''Processing original image: '' @ f) st)"
    let ?r2 = "evaluate_binary_vs_sha256 fs (path_join d f) True
                 (print (''Processing tampered image: '' @ f) (snd ?r1))"
    let ?ts = "ts @ [fst (fst ?r1), fst (fst ?r2)]"
    let ?ps = "ps @ [snd (fst ?r1), snd (fst ?r2)]"
    obtain xs ys where
      "fst (process_entries fs d rest (?ts, ?ps) (snd ?r2)) = (?ts @ xs, ?ps @ ys)"
      using Cons.IH by blast
    then have "fst (process_entries fs d (f # rest) (ts, ps) st)
        = (ts @ ([fst (fst ?r1), fst (fst ?r2)] @ xs), ps @ ([snd (fst ?r1), snd (fst ?r2)] @ ys))"
      unfolding process_entries_step [OF True] Let_def by simp
    then show ?thesis by blast
  next
    case False
    then show ?thesis using Cons.IH [of ts ps st] by simp
  qed
qed

lemma process_entries_invariant:
  assumes "length ts = length ps"
    and "\<forall>q \<in> set (zip ts ps). P q"
    and "\<And>f t st'. f \<in> set es \<Longrightarrow> is_image_name f \<Longrightarrow>
           P (fst (evaluate_binary_vs_sha256 fs (path_join d f) t st'))"
  shows "\<forall>q \<in> set (zip (fst (fst (process_entries fs d es (ts, ps) st)))
                       (snd (fst (process_entries fs d es (ts, ps) st)))). P q"
  using assms
proof (induction es arbitrary: ts ps st)
  case Nil
  then show ?case by simp
next
  case (Cons f rest)
  show ?case
  proof (cases "is_image_name f")
    case True
    let ?r1 = "evaluate_binary_vs_sha256 fs (path_join d f) False
                 (print (''Processing original image: '' @ f) st)"
    let ?r2 = "evaluate_binary_vs_sha256 fs (path_join d f) True
                 (print (''Processing tampered image: '' @ f) (snd ?r1))"
    have p1: "P (fst ?r1)" and p2: "P (fst ?r2)"
      using Cons.prems(3) [of f] True by simp_all
    have len: "length (ts @ [fst (fst ?r1), fst (fst ?r2)])
                 = length (ps @ [snd (fst ?r1), snd (fst ?r2)])"
      using Cons.prems(1) by simp
    have inv: "\<forall>q \<in> set (zip (ts @ [fst (fst ?r1), fst (fst ?r2)])
                               (ps @ [snd (fst ?r1), snd (fst ?r2)])). P q"
      using Cons.prems(1,2) p1 p2 by auto
    have rest: "\<And>g t st'. g \<in> set rest \<Longrightarrow> is_image_name g \<Longrightarrow>
           P (fst (evaluate_binary_vs_sha256 fs (path_join d g) t st'))"
      using Cons.prems(3) by simp
    show ?thesis
      unfolding process_entries_step [OF True] Let_def
      using Cons.IH [OF len inv rest] by simp
  next
    case False
    have rest: "\<And>g t st'. g \<in> set rest \<Longrightarrow> is_image_name g \<Longrightarrow>
           P (fst (evaluate_binary_vs_sha256 fs (path_join d g) t st'))"
      using Cons.prems(3) by simp
    show ?thesis
      using False Cons.IH [OF Cons.prems(1) Cons.prems(2) rest, of st] by simp
  qed
qed

lemma image_to_binary_stdout:
  "\<exists>new. stdout (snd (image_to_binary fs p st)) = stdout st @ new
         \<and> ''Error: No valid images processed.'' \<notin> set new"
  by (cases "open_read fs p") (simp_all add: image_to_binary_def print_def)

lemma evaluate_stdout:
  "\<exists>new. stdout (snd (evaluate_binary_vs_sha256 fs p t st)) = stdout st @ new
         \<and> ''Error: No valid images processed.'' \<notin> set new"
proof (cases "read_nonempty fs p")
  case False
  then show ?thesis
    using image_to_binary_stdout [of fs p st]
    by (simp add: evaluate_labels evaluate_exit_read_empty)
next
  case True
  then obtain b where b: "open_read fs p = Content b"
    by (auto simp add: read_nonempty_def split: read_outcome.splits)
  show ?thesis
  proof (cases t)
    case True
    then show ?thesis
      using evaluate_exit_tampered [OF \<open>read_nonempty fs p\<close> b, of st]
      by (simp add: evaluate_labels tamper_image_stdout)
  next
    case False
    then show ?thesis
      using \<open>read_nonempty fs p\<close> by (simp add: evaluate_readable_untampered)
  qed
qed

lemma process_entries_stdout:
  "\<exists>new. stdout (snd (process_entries fs d es (ts, ps) st)) = stdout st @ new
         \<and> ''Error: No valid images processed.'' \<notin> set new"
proof (induction es arbitrary: ts ps st)
  case Nil
  show ?case by simp
next
  case (Cons f rest)
  show ?case
  proof (cases "is_image_name f")
    case True
    let ?st1 = "print (''Processing original image: '' @ f) st"
    let ?r1 = "evaluate_binary_vs_sha256 fs (path_join d f) False ?st1"
    let ?st3 = "print (''Processing tampered image: '' @ f) (snd ?r1)"
    let ?r2 = "evaluate_binary_vs_sha256 fs (path_join d f) True ?st3"
    let ?ts = "ts @ [fst (fst ?r1), fst (fst ?r2)]"
    let ?ps = "ps @ [snd (fst ?r1), snd (fst ?r2)]"
    obtain n1 where n1: "stdout (snd ?r1) = stdout ?st1 @ n1"
        "''Error: No valid images processed.'' \<notin> set n1"
      using evaluate_stdout [of fs "path_join d f" False ?st1] by blast
    obtain n2 where n2: "stdout (snd ?r2) = stdout ?st3 @ n2"
        "''Error: No valid images processed.'' \<notin> set n2"
      using evaluate_stdout [of fs "path_join d f" True ?st3] by blast
    obtain n3 where n3: "stdout (snd (process_entries fs d rest (?ts, ?ps) (snd ?r2)))
          = stdout (snd ?r2) @ n3"
        "''Error: No valid images processed.'' \<notin> set n3"
      using Cons.IH by blast
    have "stdout (snd (process_entries fs d (f # rest) (ts, ps) st))
          = stdout st @ ([''Processing original image: '' @ f] @ n1
                          @ [''Processing tampered image: '' @ f] @ n2 @ n3)"
      unfolding process_entries_step [OF True] Let_def
      using n1(1) n2(1) n3(1) by (simp add: print_def)
    moreover have "''Error: No valid images processed.''
        \<notin> set ([''Processing original image: '' @ f] @ n1
                 @ [''Processing tampered image: '' @ f] @ n2 @ n3)"
      using n1(2) n2(2) n3(2) by simp
    ultimately show ?thesis by blast
  next
    case False
    then show ?thesis using Cons.IH [of ts ps st] by simp
  qed
qed

lemma process_entries_unreadable_pairs:
  "\<forall>k < length (filter is_image_name es).
      \<not> read_nonempty fs (path_join d (filter is_image_name es ! k)) \<longrightarrow>
        fst (fst (process_entries fs d es (ts, ps) st)) ! (length ts + 2 * k) = 0
      \<and> snd (fst (process_entries fs d es (ts, ps) st)) ! (length ps + 2 * k) = 0
      \<and> fst (fst (process_entries fs d es (ts, ps) st)) ! (length ts + 2 * k + 1) = 0
      \<and> snd (fst (process_entries fs d es (ts, ps) st)) ! (length ps + 2 * k + 1) = 0"
proof (induction es arbitrary: ts ps st)
  case Nil
  show ?case by simp
next
  case (Cons f rest)
  show ?case
  proof (cases "is_image_name f")
    case False
    then show ?thesis using Cons.IH [of ts ps st] by simp
  next
    case True
    let ?st1 = "print (''Processing original image: '' @ f) st"
    let ?r1 = "evaluate_binary_vs_sha256 fs (path_join d f) False ?st1"
    let ?st3 = "print (''Processing tampered image: '' @ f) (snd ?r1)"
    let ?r2 = "evaluate_binary_vs_sha256 fs (path_join d f) True ?st3"
    let ?ts = "ts @ [fst (fst ?r1), fst (fst ?r2)]"
    let ?ps = "ps @ [snd (fst ?r1), snd (fst ?r2)]"
    let ?R = "process_entries fs d rest (?ts, ?ps) (snd ?r2)"
    have R: "process_entries fs d (f # rest) (ts, ps) st = ?R"
      unfolding process_entries_step [OF True] Let_def by simp
    obtain xs ys where pre: "fst ?R = (?ts @ xs, ?ps @ ys)"
      using process_entries_prefix [of fs d rest ?ts ?ps "snd ?r2"] by blast
    show ?thesis
    proof (intro allI impI)
      fix k
      assume k: "k < length (filter is_image_name (f # rest))"
        and un: "\<not> read_nonempty fs (path_join d (filter is_image_name (f # rest) ! k))"
      show "fst (fst (process_entries fs d (f # rest) (ts, ps) st)) ! (length ts + 2 * k) = 0
          \<and> snd (fst (process_entries fs d (f # rest) (ts, ps) st)) ! (length ps + 2 * k) = 0
          \<and> fst (fst (process_entries fs d (f # rest) (ts, ps) st)) ! (length ts + 2 * k + 1) = 0
          \<and> snd (fst (process_entries fs d (f # rest) (ts, ps) st)) ! (length ps + 2 * k + 1) = 0"
      proof (cases k)
        case 0
        with un True have "\<not> read_nonempty fs (path_join d f)" by simp
        then have "fst ?r1 = (0, 0)" and "fst ?r2 = (0, 0)"
          by (simp_all add: evaluate_unreadable)
        then show ?thesis
          unfolding R using pre 0 by (simp add: nth_append)
      next
        case (Suc j)
        with k True have j: "j < length (filter is_image_name rest)" by simp
        from un True Suc
        have "\<not> read_nonempty fs (path_join d (filter is_image_name rest ! j))" by simp
        with Cons.IH [of ?ts ?ps "snd ?r2"] j
        have "fst (fst ?R) ! (length ?ts + 2 * j) = 0
            \<and> snd (fst ?R) ! (length ?ps + 2 * j) = 0
            \<and> fst (fst ?R) ! (length ?ts + 2 * j + 1) = 0
            \<and> snd (fst ?R) ! (length ?ps + 2 * j + 1) = 0"
          by blast
        then show ?thesis unfolding R using Suc by simp
      qed
    qed
  qed
qed

lemma count_pairs_zero_iff: "(count_pairs t p ts ps = 0) = ((t, p) \<notin> set (zip ts ps))"
  by (auto simp add: count_pairs_def filter_empty_conv)

lemma run_labels:
  "isdir fs d \<Longrightarrow>
   all_true_labels (fst (process_images_run fs d st))
     = fst (fst (process_entries fs d (listdir fs d) ([], []) st))
   \<and> all_predicted_labels (fst (process_images_run fs d st))
     = snd (fst (process_entries fs d (listdir fs d) ([], []) st))"
  by (simp add: process_images_run_def Let_def split: prod.splits)

lemma run_labels_no_dir:
  "\<not> isdir fs d \<Longrightarrow>
   all_true_labels (fst (process_images_run fs d st)) = []
   \<and> all_predicted_labels (fst (process_images_run fs d st)) = []"
  by (simp add: process_images_run_def)

lemma run_metrics:
  "isdir fs d \<Longrightarrow>
   metrics (fst (process_images_run fs d st)) =
     (let ts = all_true_labels (fst (process_images_run fs d st));
          ps = all_predicted_labels (fst (process_images_run fs d st))
      in if ts = [] \<or> ps = [] then (0, 0, 0)
         else (precision_score ts ps, recall_score ts ps, f1_score ts ps))"
  by (simp add: process_images_run_def Let_def split: prod.splits)

lemma run_stdout:
  "isdir fs d \<Longrightarrow>
   stdout (snd (process_images_run fs d st)) =
     (let r = process_entries fs d (listdir fs d) ([], []) st
      in if fst (fst r) = [] \<or> snd (fst r) = []
         then stdout (snd r) @ [''Error: No valid images processed.'']
         else stdout (snd r))"
  by (simp add: process_images_run_def Let_def print_def split: prod.splits)

lemma directory_metrics:
  "fst (process_images_in_directory fs d st) = metrics (fst (process_images_run fs d st))"
  "snd (process_images_in_directory fs d st) = snd (process_images_run fs d st)"
  by (cases "process_images_run fs d st", simp add: process_images_in_directory_def)+

lemma run_no_false_negative:
  "(1, 0) \<notin> set (zip (all_true_labels (fst (process_images_run fs d st)))
                      (all_predicted_labels (fst (process_images_run fs d st))))"
proof (cases "isdir fs d")
  case False
  then show ?thesis by (simp add: run_labels_no_dir)
next
  case True
  have "\<forall>q \<in> set (zip (fst (fst (process_entries fs d (listdir fs d) ([], []) st)))
                        (snd (fst (process_entries fs d (listdir fs d) ([], []) st)))).
          q \<noteq> (1, 0)"
    by (rule process_entries_invariant) (simp_all add: evaluate_never_false_negative)
  then show ?thesis using run_labels [OF True, of st] by auto
qed

lemma recall_one:
  assumes "(1, 0) \<notin> set (zip ts ps)" and "(1, 1) \<in> set (zip ts ps)"
  shows "recall_score ts ps = 1"
proof -
  have fn: "count_pairs 1 0 ts ps = 0" using assms(1) by (simp add: count_pairs_zero_iff)
  have "count_pairs 1 1 ts ps \<noteq> 0" using assms(2) by (simp add: count_pairs_zero_iff)
  then show ?thesis by (simp add: recall_score_def ratio_or_zero_def fn)
qed

text \<open>
  C10. In every run of the batch runner the collected lists hold no pair (1, 0): there is
  no false negative, and whenever a pair (1, 1) was collected the recall that the runner
  returns is 1.
\<close>

theorem no_false_negative_recall_one:
  "(1, 0) \<notin> set (zip (all_true_labels (fst (process_images_run fs d st)))
                      (all_predicted_labels (fst (process_images_run fs d st))))
   \<and> count_pairs 1 0 (all_true_labels (fst (process_images_run fs d st)))
                     (all_predicted_labels (fst (process_images_run fs d st))) = 0
   \<and> ((1, 1) \<in> set (zip (all_true_labels (fst (process_images_run fs d st)))
                         (all_predicted_labels (fst (process_images_run fs d st))))
        \<longrightarrow> fst (snd (fst (process_images_in_directory fs d st))) = 1)"
proof -
  let ?r = "fst (process_images_run fs d st)"
  have nfn: "(1, 0) \<notin> set (zip (all_true_labels ?r) (all_predicted_labels ?r))"
    by (rule run_no_false_negative)
  have "fst (snd (fst (process_images_in_directory fs d st))) = 1"
    if tp: "(1, 1) \<in> set (zip (all_true_labels ?r) (all_predicted_labels ?r))"
  proof -
    have dir: "isdir fs d"
      using tp run_labels_no_dir [of fs d st] by (cases "isdir fs d") auto
    have ne: "all_true_labels ?r \<noteq> []" "all_predicted_labels ?r \<noteq> []"
      using tp by auto
    have "fst (snd (metrics ?r)) = recall_score (all_true_labels ?r) (all_predicted_labels ?r)"
      using ne by (simp add: run_metrics [OF dir] Let_def)
    also have "\<dots> = 1" using nfn tp by (rule recall_one)
    finally show ?thesis by (simp add: directory_metrics)
  qed
  then show ?thesis using nfn by (simp add: count_pairs_zero_iff)
qed

lemma process_entries_image_entry:
  assumes "is_image_name f"
  shows "\<exists>q st'. (q = 0 \<or> q = 1) \<and>
           process_entries fs d (f # rest) (ts, ps) st =
             process_entries fs d rest
               (ts @ (if read_nonempty fs (path_join d f) then [1, 0] else [0, 0]),
                ps @ (if read_nonempty fs (path_join d f) then [1, q] else [0, 0])) st'"
proof -
  let ?st1 = "print (''Processing original image: '' @ f) st"
  let ?r1 = "evaluate_binary_vs_sha256 fs (path_join d f) False ?st1"
  let ?st3 = "print (''Processing tampered image: '' @ f) (snd ?r1)"
  let ?r2 = "evaluate_binary_vs_sha256 fs (path_join d f) True ?st3"
  have step: "process_entries fs d (f # rest) (ts, ps) st =
      process_entries fs d rest
        (ts @ [fst (fst ?r1), fst (fst ?r2)], ps @ [snd (fst ?r1), snd (fst ?r2)]) (snd ?r2)"
    unfolding process_entries_step [OF assms] Let_def by simp
  show ?thesis
  proof (cases "read_nonempty fs (path_join d f)")
    case True
    have r1: "fst ?r1 = (1, 1)" using True by (simp add: evaluate_readable_untampered)
    obtain q where q: "q = 0 \<or> q = 1" "fst ?r2 = (0, q)"
      using evaluate_readable_tampered [OF True, of ?st3] by blast
    have "process_entries fs d (f # rest) (ts, ps) st =
        process_entries fs d rest (ts @ [1, 0], ps @ [1, q]) (snd ?r2)"
      unfolding step r1 q(2) by simp
    with q(1) True show ?thesis by auto
  next
    case False
    have "fst ?r1 = (0, 0)" and "fst ?r2 = (0, 0)"
      using False by (simp_all add: evaluate_unreadable)
    then have "process_entries fs d (f # rest) (ts, ps) st =
        process_entries fs d rest (ts @ [0, 0], ps @ [0, 0]) (snd ?r2)"
      unfolding step by simp
    with False show ?thesis by auto
  qed
qed

lemma example_names:
  "\<not> is_image_name ''README.md''" "is_image_name ''a.png''" "is_image_name ''b.JPG''"
  by (simp_all add: is_image_name_def lower_def lower_char_def endswith_def)

lemma example_paths:
  "path_join example_dir ''a.png'' = ''fingerprintDatasets/a.png''"
  "path_join example_dir ''b.JPG'' = ''fingerprintDatasets/b.JPG''"
  by (simp_all add: path_join_def example_dir_def)

lemma example_reads:
  "read_nonempty example_fs ''fingerprintDatasets/a.png''"
  "\<not> read_nonempty example_fs ''fingerprintDatasets/b.JPG''"
  "\<not> read_nonempty unreadable_fs ''fingerprintDatasets/b.JPG''"
  by (simp_all add: read_nonempty_def example_fs_def unreadable_fs_def abcd_def)

lemma example_entries:
  "\<exists>q st'. (q = 0 \<or> q = 1) \<and>
     process_entries example_fs example_dir [''README.md'', ''a.png'', ''b.JPG''] ([], []) st
       = (([1, 0, 0, 0], [1, q, 0, 0]), st')"
proof -
  obtain q st1 where q: "q = 0 \<or> q = 1"
    and a: "process_entries example_fs example_dir [''a.png'', ''b.JPG''] ([], []) st
            = process_entries example_fs example_dir [''b.JPG''] ([1, 0], [1, q]) st1"
    using process_entries_image_entry [OF example_names(2), of example_fs example_dir
        "[''b.JPG'']" "[]" "[]" st]
    by (auto simp add: example_paths example_reads)
  obtain st2 where
    b: "process_entries example_fs example_dir [''b.JPG''] ([1, 0], [1, q]) st1
            = (([1, 0, 0, 0], [1, q, 0, 0]), st2)"
    using process_entries_image_entry [OF example_names(3), of example_fs example_dir
        "[]" "[1, 0]" "[1, q]" st1]
    by (auto simp add: example_paths example_reads)
  have "process_entries example_fs example_dir [''README.md'', ''a.png'', ''b.JPG''] ([], []) st
        = (([1, 0, 0, 0], [1, q, 0, 0]), st2)"
    unfolding process_entries_skip [OF example_names(1)] a b by (rule refl)
  with q show ?thesis by blast
qed

lemma tamper_abcd:
  "fst (tamper_image abcd example_state) = [0x41, 0x42, 0x03, 0x44]"
  by (simp add: tamper_image_nonempty abcd_def example_state_def numeral_2_eq_2)

lemma tamper_abcd_draws:
  "entropy st = (\<lambda>n. n + 2) \<Longrightarrow> fst (tamper_image abcd st) = [0x41, 0x42, 0x03, 0x44]"
  by (simp add: tamper_image_nonempty abcd_def numeral_2_eq_2)

lemma example_tampered_trial:
  assumes "entropy st = (\<lambda>n. n + 2)"
  shows "fst (evaluate_binary_vs_sha256 example_fs ''fingerprintDatasets/a.png'' True st) = (0, 0)"
proof -
  have b: "open_read example_fs ''fingerprintDatasets/a.png'' = Content abcd"
    by (simp add: example_fs_def)
  have ne: "generate_sha256_hash [0x41, 0x42, 0x03, 0x44] \<noteq> generate_sha256_hash abcd"
    by (simp add: digest_abcd digest_abcd_tampered)
  show ?thesis
    using evaluate_exit_tampered [OF example_reads(1) b, of st] ne
    by (simp add: evaluate_labels tamper_abcd_draws [OF assms])
qed

theorem no_false_negative_recall_one_witness:
  "(1, 1) \<in> set (zip (all_true_labels (fst (process_images_run example_fs example_dir example_state)))
                     (all_predicted_labels (fst (process_images_run example_fs example_dir example_state))))
   \<and> (1, 0) \<notin> set (zip (all_true_labels (fst (process_images_run example_fs example_dir example_state)))
                     (all_predicted_labels (fst (process_images_run example_fs example_dir example_state))))
   \<and> fst (snd (fst (process_images_in_directory example_fs example_dir example_state))) = 1"
proof -
  have dir: "isdir example_fs example_dir" by (simp add: example_fs_def example_dir_def)
  have ls: "listdir example_fs example_dir = [''README.md'', ''a.png'', ''b.JPG'']"
    by (simp add: example_fs_def)
  obtain q st' where
    "process_entries example_fs example_dir (listdir example_fs example_dir) ([], []) example_state
       = (([1, 0, 0, 0], [1, q, 0, 0]), st')"
    unfolding ls using example_entries [of example_state] by blast
  then have tp: "(1, 1) \<in> set (zip (all_true_labels (fst (process_images_run example_fs example_dir example_state)))
                     (all_predicted_labels (fst (process_images_run example_fs example_dir example_state))))"
    using run_labels [OF dir, of example_state] by simp
  with no_false_negative_recall_one [of example_fs example_dir example_state]
  show ?thesis by blast
qed

text \<open>
  The whole run on the example directory: the readable image gives (1, 1) and (0, 0), the
  missing image gives (0, 0) twice, and precision, recall and F1 are all 1.
\<close>

lemma example_run:
  "all_true_labels (fst (process_images_run example_fs example_dir example_state)) = [1, 0, 0, 0]
   \<and> all_predicted_labels (fst (process_images_run example_fs example_dir example_state))
       = [1, 0, 0, 0]
   \<and> fst (process_images_in_directory example_fs example_dir example_state) = (1, 1, 1)"
proof -
  let ?a = "''fingerprintDatasets/a.png''"
  let ?b = "''fingerprintDatasets/b.JPG''"
  have dir: "isdir example_fs example_dir" by (simp add: example_fs_def example_dir_def)
  have ls: "listdir example_fs example_dir = [''README.md'', ''a.png'', ''b.JPG'']"
    by (simp add: example_fs_def)
  have a1: "evaluate_binary_vs_sha256 example_fs ?a False st = ((1, 1), st)" for st
    using example_reads(1) by (rule evaluate_readable_untampered)
  have a2: "fst (evaluate_binary_vs_sha256 example_fs ?a True
      (print l2 (print l1 example_state))) = (0, 0)" for l1 l2
    by (rule example_tampered_trial) (simp add: print_def example_state_def)
  have b0: "fst (evaluate_binary_vs_sha256 example_fs ?b t st) = (0, 0)" for t st
    using example_reads(2) by (rule evaluate_unreadable)
  have "fst (process_entries example_fs example_dir [''README.md'', ''a.png'', ''b.JPG'']
          ([], []) example_state) = ([1, 0, 0, 0], [1, 0, 0, 0])"
    unfolding process_entries_skip [OF example_names(1)]
      process_entries_step [OF example_names(2)] process_entries_step [OF example_names(3)]
      Let_def example_paths a1 snd_conv fst_conv a2 b0
    by simp
  then have l: "all_true_labels (fst (process_images_run example_fs example_dir example_state))
        = [1, 0, 0, 0]"
      "all_predicted_labels (fst (process_images_run example_fs example_dir example_state))
        = [1, 0, 0, 0]"
    using run_labels [OF dir, of example_state] by (simp_all add: ls)
  have m: "precision_score [1, 0, 0, 0] [1, 0, 0, 0] = 1"
      "recall_score [1, 0, 0, 0] [1, 0, 0, 0] = 1" "f1_score [1, 0, 0, 0] [1, 0, 0, 0] = 1"
    by (simp_all add: f1_score_def precision_score_def recall_score_def count_pairs_def
        ratio_or_zero_def)
  have "fst (process_images_in_directory example_fs example_dir example_state) = (1, 1, 1)"
    by (simp add: directory_metrics run_metrics [OF dir] l m)
  with l show ?thesis by blast
qed

text \<open>
  C2. When the read of the path yields a non-empty byte sequence, the evaluator called
  without tampering returns the label pair (1, 1) and leaves the state as it was. In
  general, on such a path, the ground-truth label is 1 exactly when the tamper flag is
  false, and the predicted label of the tampered trial is 1 exactly when the digest of
  the tampered bytes equals the digest of the bytes read.
\<close>

theorem evaluate_labels_on_read:
  "fst (image_to_binary fs image_path st) \<noteq> [] \<Longrightarrow>
   evaluate_binary_vs_sha256 fs image_path False st = ((1, 1), st)
   \<and> fst (fst (evaluate_binary_vs_sha256 fs image_path tampered st))
       = (if tampered then 0 else 1)
   \<and> snd (fst (evaluate_binary_vs_sha256 fs image_path True st))
       = (if generate_sha256_hash
               (fst (tamper_image (fst (image_to_binary fs image_path st)) st))
             = generate_sha256_hash (fst (image_to_binary fs image_path st))
          then 1 else 0)"
proof -
  assume "fst (image_to_binary fs image_path st) \<noteq> []"
  then have r: "read_nonempty fs image_path" by (simp add: image_to_binary_nonempty)
  then obtain b where b: "open_read fs image_path = Content b"
    by (auto simp add: read_nonempty_def split: read_outcome.splits)
  then have i: "image_to_binary fs image_path st = (b, st)"
    by (simp add: image_to_binary_def)
  have u: "evaluate_binary_vs_sha256 fs image_path False st = ((1, 1), st)"
    using r by (rule evaluate_readable_untampered)
  have t: "fst (evaluate_binary_vs_sha256 fs image_path True st)
      = (0, if generate_sha256_hash (fst (tamper_image b st)) = generate_sha256_hash b
            then 1 else 0)"
    using evaluate_exit_tampered [OF r b, of st] by (simp add: evaluate_labels)
  show ?thesis using u t by (cases tampered) (simp_all add: i)
qed

theorem evaluate_labels_on_read_witness:
  "fst (image_to_binary example_fs ''fingerprintDatasets/a.png'' example_state) \<noteq> []
   \<and> evaluate_binary_vs_sha256 example_fs ''fingerprintDatasets/a.png'' False example_state
       = ((1, 1), example_state)
   \<and> fst (evaluate_binary_vs_sha256 example_fs ''fingerprintDatasets/a.png'' True example_state)
       = (0, 0)"
proof -
  have i: "image_to_binary example_fs ''fingerprintDatasets/a.png'' example_state
      = (abcd, example_state)"
    by (simp add: image_to_binary_def example_fs_def)
  have r: "fst (image_to_binary example_fs ''fingerprintDatasets/a.png'' example_state) \<noteq> []"
    by (simp add: i abcd_def)
  have ne: "generate_sha256_hash [0x41, 0x42, 0x03, 0x44] \<noteq> generate_sha256_hash abcd"
    by (simp add: digest_abcd digest_abcd_tampered)
  have "snd (fst (evaluate_binary_vs_sha256 example_fs ''fingerprintDatasets/a.png'' True
          example_state)) = 0
      \<and> fst (fst (evaluate_binary_vs_sha256 example_fs ''fingerprintDatasets/a.png'' True
          example_state)) = 0"
    using evaluate_labels_on_read [OF r, of True] ne by (simp add: i tamper_abcd)
  then have "fst (evaluate_binary_vs_sha256 example_fs ''fingerprintDatasets/a.png'' True
      example_state) = (0, 0)"
    by (simp add: prod_eq_iff)
  with r evaluate_labels_on_read [OF r, of True] show ?thesis by blast
qed

text \<open>
  C8. The evaluator never leaves through the return that follows the tamperer: it leaves
  through the comparison when the read yields bytes and through the first return when it
  does not; and on a non-empty input the tamperer never returns the empty sequence.
\<close>

theorem tamper_empty_unreachable:
  "snd (fst (evaluate_exit fs image_path tampered st))
     = (if read_nonempty fs image_path then Compared else Read_Empty)
   \<and> snd (fst (evaluate_exit fs image_path tampered st)) \<noteq> Tamper_Empty
   \<and> (b \<noteq> [] \<longrightarrow> fst (tamper_image b st') \<noteq> [])"
proof -
  have ex: "snd (fst (evaluate_exit fs image_path tampered st))
     = (if read_nonempty fs image_path then Compared else Read_Empty)"
  proof (cases "read_nonempty fs image_path")
    case False
    then show ?thesis by (simp add: evaluate_exit_read_empty)
  next
    case True
    then obtain c where c: "open_read fs image_path = Content c"
      by (auto simp add: read_nonempty_def split: read_outcome.splits)
    show ?thesis
      using True evaluate_exit_tampered [OF True c, of st] evaluate_exit_untampered [OF True, of st]
      by (cases tampered) simp_all
  qed
  then show ?thesis by (simp add: tamper_image_eq_Nil)
qed

theorem tamper_empty_unreachable_witness:
  "abcd \<noteq> []
   \<and> fst (tamper_image abcd example_state) \<noteq> []
   \<and> snd (fst (evaluate_exit example_fs ''fingerprintDatasets/a.png'' True example_state))
       = Compared"
proof -
  have ne: "abcd \<noteq> []" by (simp add: abcd_def)
  show ?thesis
    using tamper_empty_unreachable
      [of example_fs "''fingerprintDatasets/a.png''" True example_state abcd example_state]
      ne example_reads(1)
    by simp
qed

text \<open>
  C5. When the path does not name a directory, the batch runner prints the line that the
  directory does not exist and returns the metrics (0.0, 0.0, 0.0); the label lists are
  empty at the return, nothing else is printed and no random draw is consumed.
\<close>

theorem missing_directory_zero_metrics:
  "\<not> isdir fs directory \<Longrightarrow>
   process_images_run fs directory st =
     (\<lparr>metrics = (0, 0, 0), all_true_labels = [], all_predicted_labels = []\<rparr>,
      st\<lparr>stdout := stdout st @ [''Error: The directory '' @ directory @ '' does not exist.'']\<rparr>)
   \<and> process_images_in_directory fs directory st =
     ((0, 0, 0),
      st\<lparr>stdout := stdout st @ [''Error: The directory '' @ directory @ '' does not exist.'']\<rparr>)"
  by (simp add: process_images_in_directory_def process_images_run_def print_def)

theorem missing_directory_zero_metrics_witness:
  "\<not> isdir example_fs ''nowhere''
   \<and> process_images_in_directory example_fs ''nowhere'' example_state =
       ((0, 0, 0),
        \<lparr>stdout = [''Error: The directory nowhere does not exist.''], entropy = (\<lambda>n. n + 2)\<rparr>)
   \<and> all_true_labels (fst (process_images_run example_fs ''nowhere'' example_state)) = []
   \<and> all_predicted_labels (fst (process_images_run example_fs ''nowhere'' example_state)) = []"
proof -
  have d: "\<not> isdir example_fs ''nowhere''" by (simp add: example_fs_def)
  show ?thesis
    using d missing_directory_zero_metrics [OF d, of example_state]
    by (simp add: example_state_def)
qed

text \<open>
  C9. For an existing directory, each of the two label lists ends with exactly twice as
  many elements as the directory has entries with an image extension, whether their
  files can be read or not: the entry number \<open>k\<close> among them, when its read fails or is
  empty, has the pairs (0, 0) at the positions \<open>2 * k\<close> and \<open>2 * k + 1\<close>.
\<close>

theorem two_labels_per_matching_entry:
  "isdir fs d \<Longrightarrow>
   length (all_true_labels (fst (process_images_run fs d st)))
     = 2 * length (filter is_image_name (listdir fs d))
   \<and> length (all_predicted_labels (fst (process_images_run fs d st)))
     = 2 * length (filter is_image_name (listdir fs d))
   \<and> (\<forall>k < length (filter is_image_name (listdir fs d)).
        \<not> read_nonempty fs (path_join d (filter is_image_name (listdir fs d) ! k)) \<longrightarrow>
          all_true_labels (fst (process_images_run fs d st)) ! (2 * k) = 0
        \<and> all_predicted_labels (fst (process_images_run fs d st)) ! (2 * k) = 0
        \<and> all_true_labels (fst (process_images_run fs d st)) ! (2 * k + 1) = 0
        \<and> all_predicted_labels (fst (process_images_run fs d st)) ! (2 * k + 1) = 0)"
  using process_entries_lengths [of fs d "listdir fs d" "[]" "[]" st]
    process_entries_unreadable_pairs [of "listdir fs d" fs d "[]" "[]" st]
  by (simp add: run_labels)

theorem two_labels_per_matching_entry_witness:
  "isdir example_fs example_dir
   \<and> filter is_image_name (listdir example_fs example_dir) = [''a.png'', ''b.JPG'']
   \<and> \<not> read_nonempty example_fs (path_join example_dir ''b.JPG'')
   \<and> length (all_true_labels (fst (process_images_run example_fs example_dir example_state))) = 4
   \<and> length (all_predicted_labels (fst (process_images_run example_fs example_dir example_state))) = 4
   \<and> all_true_labels (fst (process_images_run example_fs example_dir example_state)) ! 2 = 0
   \<and> all_predicted_labels (fst (process_images_run example_fs example_dir example_state)) ! 2 = 0
   \<and> all_true_labels (fst (process_images_run example_fs example_dir example_state)) ! 3 = 0
   \<and> all_predicted_labels (fst (process_images_run example_fs example_dir example_state)) ! 3 = 0"
proof -
  have dir: "isdir example_fs example_dir" by (simp add: example_fs_def example_dir_def)
  have ls: "filter is_image_name (listdir example_fs example_dir) = [''a.png'', ''b.JPG'']"
    by (simp add: example_fs_def example_names)
  have un: "\<not> read_nonempty example_fs (path_join example_dir ''b.JPG'')"
    by (simp add: example_paths example_reads)
  show ?thesis
    using two_labels_per_matching_entry [OF dir, of example_state] dir un
    unfolding ls by (auto simp add: ls)
qed

text \<open>
  C1, as the code has it. Every entry with an image extension appends exactly two label
  pairs, one for the untampered and one for the tampered trial, whether or not its read
  succeeds: (1, 1) and (0, \<open>q\<close>) when the read yields bytes, the pair (0, 0) twice when
  it fails or yields none.
\<close>

theorem two_pairs_per_image_entry:
  "is_image_name filename \<Longrightarrow>
   \<exists>q st'. (q = 0 \<or> q = 1) \<and>
     process_entries fs d (filename # rest) (ts, ps) st =
       process_entries fs d rest
         (ts @ (if read_nonempty fs (path_join d filename) then [1, 0] else [0, 0]),
          ps @ (if read_nonempty fs (path_join d filename) then [1, q] else [0, 0])) st'"
  by (rule process_entries_image_entry)

theorem two_pairs_per_image_entry_witness:
  "is_image_name ''a.png''
   \<and> read_nonempty example_fs (path_join example_dir ''a.png'')
   \<and> (\<exists>q st'. (q = 0 \<or> q = 1) \<and>
         process_entries example_fs example_dir [''a.png''] ([], []) example_state
           = (([1, 0], [1, q]), st'))"
proof -
  obtain q st' where "q = 0 \<or> q = 1"
    and "process_entries example_fs example_dir [''a.png''] ([], []) example_state
           = (([1, 0], [1, q]), st')"
    using two_pairs_per_image_entry [OF example_names(2), of example_fs example_dir
      "[]" "[]" "[]" example_state]
    by (auto simp add: example_paths example_reads)
  then have "\<exists>q st'. (q = 0 \<or> q = 1) \<and>
         process_entries example_fs example_dir [''a.png''] ([], []) example_state
           = (([1, 0], [1, q]), st')"
    by blast
  then show ?thesis
    using example_names(2) example_reads(1) by (simp only: example_paths)
qed

text \<open>
  A failed read does not contribute zero pairs: with the file of \<open>b.JPG\<close> missing, the
  lists grow from one element to three.
\<close>

theorem failed_read_appends_two_pairs:
  "open_read example_fs (path_join example_dir ''b.JPG'') = FileNotFoundError
   \<and> fst (image_to_binary example_fs (path_join example_dir ''b.JPG'') example_state) = []
   \<and> fst (process_entries example_fs example_dir [''b.JPG''] ([1], [1]) example_state)
       = ([1, 0, 0], [1, 0, 0])"
proof -
  have "open_read example_fs (path_join example_dir ''b.JPG'') = FileNotFoundError"
    by (simp add: example_paths example_fs_def)
  moreover have "fst (image_to_binary example_fs (path_join example_dir ''b.JPG'') example_state) = []"
    using image_to_binary_nonempty [of example_fs "path_join example_dir ''b.JPG''" example_state]
    by (simp add: example_paths example_reads)
  moreover obtain st' where
    "process_entries example_fs example_dir [''b.JPG''] ([1], [1]) example_state
       = (([1, 0, 0], [1, 0, 0]), st')"
    using process_entries_image_entry [OF example_names(3), of example_fs example_dir
        "[]" "[1]" "[1]" example_state]
    by (auto simp add: example_paths example_reads)
  ultimately show ?thesis by simp
qed


lemma process_entries_no_image:
  "filter is_image_name es = [] \<Longrightarrow> process_entries fs d es labels st = (labels, st)"
  by (induction es) (simp_all split: if_splits)

lemma ratio_or_zero_0: "ratio_or_zero 0 d = 0"
  by (simp add: ratio_or_zero_def)

lemma metrics_without_true_positive:
  assumes "(1, 1) \<notin> set (zip ts ps)"
  shows "precision_score ts ps = 0 \<and> recall_score ts ps = 0 \<and> f1_score ts ps = 0"
proof -
  have "count_pairs 1 1 ts ps = 0" using assms by (simp add: count_pairs_zero_iff)
  then show ?thesis
    by (simp add: precision_score_def recall_score_def f1_score_def Let_def ratio_or_zero_0)
qed

lemma run_all_unreadable:
  assumes dir: "isdir fs d"
    and un: "\<forall>f \<in> set (filter is_image_name (listdir fs d)). \<not> read_nonempty fs (path_join d f)"
  shows "\<forall>q \<in> set (zip (all_true_labels (fst (process_images_run fs d st)))
                        (all_predicted_labels (fst (process_images_run fs d st)))). q = (0, 0)"
proof -
  have "\<forall>q \<in> set (zip (fst (fst (process_entries fs d (listdir fs d) ([], []) st)))
                        (snd (fst (process_entries fs d (listdir fs d) ([], []) st)))).
          q = (0, 0)"
  proof (rule process_entries_invariant)
    show "length ([]::int list) = length ([]::int list)" by simp
    show "\<forall>q \<in> set (zip ([]::int list) ([]::int list)). q = (0, 0)" by simp
    fix f t st'
    assume "f \<in> set (listdir fs d)" and "is_image_name f"
    then have "\<not> read_nonempty fs (path_join d f)" using un by simp
    then show "fst (evaluate_binary_vs_sha256 fs (path_join d f) t st') = (0, 0)"
      by (rule evaluate_unreadable)
  qed
  then show ?thesis by (simp add: run_labels [OF dir])
qed

text \<open>
  C6, as the code has it. For an existing directory, no labels are collected exactly when
  no entry has an image extension; then the runner prints that no valid images were
  processed and returns zero metrics. When some entry has an image extension, labels are
  collected, that line is not printed, and the metrics are computed from the labels;
  they are zero all the same when none of those files yields bytes.
\<close>

theorem no_labels_iff_no_matching_entry:
  "isdir fs d \<Longrightarrow>
   (all_true_labels (fst (process_images_run fs d st)) = [])
     = (filter is_image_name (listdir fs d) = [])
   \<and> (all_predicted_labels (fst (process_images_run fs d st)) = [])
     = (filter is_image_name (listdir fs d) = [])
   \<and> (filter is_image_name (listdir fs d) = [] \<longrightarrow>
        process_images_in_directory fs d st =
          ((0, 0, 0), st\<lparr>stdout := stdout st @ [''Error: No valid images processed.'']\<rparr>))
   \<and> (filter is_image_name (listdir fs d) \<noteq> [] \<longrightarrow>
        (\<exists>new. stdout (snd (process_images_in_directory fs d st)) = stdout st @ new
               \<and> ''Error: No valid images processed.'' \<notin> set new)
        \<and> fst (process_images_in_directory fs d st) =
            (precision_score (all_true_labels (fst (process_images_run fs d st)))
               (all_predicted_labels (fst (process_images_run fs d st))),
             recall_score (all_true_labels (fst (process_images_run fs d st)))
               (all_predicted_labels (fst (process_images_run fs d st))),
             f1_score (all_true_labels (fst (process_images_run fs d st)))
               (all_predicted_labels (fst (process_images_run fs d st)))))
   \<and> ((\<forall>f \<in> set (filter is_image_name (listdir fs d)).
          \<not> read_nonempty fs (path_join d f)) \<longrightarrow>
        fst (process_images_in_directory fs d st) = (0, 0, 0))"
proof -
  assume dir: "isdir fs d"
  let ?r = "fst (process_images_run fs d st)"
  let ?m = "filter is_image_name (listdir fs d)"
  have len: "length (all_true_labels ?r) = 2 * length ?m"
      "length (all_predicted_labels ?r) = 2 * length ?m"
    using process_entries_lengths [of fs d "listdir fs d" "[]" "[]" st]
    by (simp_all add: run_labels [OF dir])
  have e1: "(all_true_labels ?r = []) = (?m = [])"
    using len(1) by (metis length_0_conv mult_is_0 zero_neq_numeral)
  have e2: "(all_predicted_labels ?r = []) = (?m = [])"
    using len(2) by (metis length_0_conv mult_is_0 zero_neq_numeral)
  have none: "process_images_in_directory fs d st =
      ((0, 0, 0), st\<lparr>stdout := stdout st @ [''Error: No valid images processed.'']\<rparr>)"
    if "?m = []"
    using dir process_entries_no_image [OF that, of fs d "([], [])" st]
    by (simp add: process_images_in_directory_def process_images_run_def print_def)
  have some: "(\<exists>new. stdout (snd (process_images_in_directory fs d st)) = stdout st @ new
               \<and> ''Error: No valid images processed.'' \<notin> set new)
        \<and> fst (process_images_in_directory fs d st) =
            (precision_score (all_true_labels ?r) (all_predicted_labels ?r),
             recall_score (all_true_labels ?r) (all_predicted_labels ?r),
             f1_score (all_true_labels ?r) (all_predicted_labels ?r))"
    if "?m \<noteq> []"
  proof -
    have ne: "all_true_labels ?r \<noteq> []" "all_predicted_labels ?r \<noteq> []"
      using that e1 e2 by simp_all
    then have ne': "fst (fst (process_entries fs d (listdir fs d) ([], []) st)) \<noteq> []"
        "snd (fst (process_entries fs d (listdir fs d) ([], []) st)) \<noteq> []"
      by (simp_all add: run_labels [OF dir])
    have "stdout (snd (process_images_run fs d st))
        = stdout (snd (process_entries fs d (listdir fs d) ([], []) st))"
      using ne' by (simp add: run_stdout [OF dir] Let_def)
    then have "\<exists>new. stdout (snd (process_images_in_directory fs d st)) = stdout st @ new
               \<and> ''Error: No valid images processed.'' \<notin> set new"
      using process_entries_stdout [of fs d "listdir fs d" "[]" "[]" st]
      by (simp add: directory_metrics)
    moreover have "fst (process_images_in_directory fs d st) =
            (precision_score (all_true_labels ?r) (all_predicted_labels ?r),
             recall_score (all_true_labels ?r) (all_predicted_labels ?r),
             f1_score (all_true_labels ?r) (all_predicted_labels ?r))"
      using ne by (simp add: directory_metrics run_metrics [OF dir] Let_def)
    ultimately show ?thesis by blast
  qed
  have zero: "fst (process_images_in_directory fs d st) = (0, 0, 0)"
    if un: "\<forall>f \<in> set ?m. \<not> read_nonempty fs (path_join d f)"
  proof -
    have "\<forall>q \<in> set (zip (all_true_labels ?r) (all_predicted_labels ?r)). q = (0, 0)"
      using run_all_unreadable [OF dir un, of st] .
    then have "(1, 1) \<notin> set (zip (all_true_labels ?r) (all_predicted_labels ?r))"
      by auto
    then show ?thesis
      using metrics_without_true_positive [of "all_true_labels ?r" "all_predicted_labels ?r"]
      by (simp add: directory_metrics run_metrics [OF dir] Let_def)
  qed
  show ?thesis using e1 e2 none some zero by blast
qed

theorem no_labels_iff_no_matching_entry_witness:
  "isdir no_image_fs example_dir
   \<and> filter is_image_name (listdir no_image_fs example_dir) = []
   \<and> all_true_labels (fst (process_images_run no_image_fs example_dir example_state)) = []
   \<and> all_predicted_labels (fst (process_images_run no_image_fs example_dir example_state)) = []
   \<and> process_images_in_directory no_image_fs example_dir example_state =
        ((0, 0, 0),
         \<lparr>stdout = [''Error: No valid images processed.''], entropy = (\<lambda>n. n + 2)\<rparr>)
   \<and> isdir unreadable_fs example_dir
   \<and> filter is_image_name (listdir unreadable_fs example_dir) = [''b.JPG'']
   \<and> \<not> read_nonempty unreadable_fs (path_join example_dir ''b.JPG'')
   \<and> all_true_labels (fst (process_images_run unreadable_fs example_dir example_state)) \<noteq> []
   \<and> all_predicted_labels (fst (process_images_run unreadable_fs example_dir example_state)) \<noteq> []
   \<and> fst (process_images_in_directory unreadable_fs example_dir example_state) = (0, 0, 0)"
proof -
  have dir1: "isdir no_image_fs example_dir"
    by (simp add: no_image_fs_def example_fs_def example_dir_def)
  have ls1: "filter is_image_name (listdir no_image_fs example_dir) = []"
    by (simp add: no_image_fs_def example_names)
  have dir2: "isdir unreadable_fs example_dir"
    by (simp add: unreadable_fs_def example_fs_def example_dir_def)
  have ls2: "filter is_image_name (listdir unreadable_fs example_dir) = [''b.JPG'']"
    by (simp add: unreadable_fs_def example_names)
  have un: "\<not> read_nonempty unreadable_fs (path_join example_dir ''b.JPG'')"
    by (simp add: example_paths example_reads)
  have a: "all_true_labels (fst (process_images_run no_image_fs example_dir example_state)) = []
     \<and> all_predicted_labels (fst (process_images_run no_image_fs example_dir example_state)) = []
     \<and> process_images_in_directory no_image_fs example_dir example_state =
        ((0, 0, 0),
         \<lparr>stdout = [''Error: No valid images processed.''], entropy = (\<lambda>n. n + 2)\<rparr>)"
    using no_labels_iff_no_matching_entry [OF dir1, of example_state] ls1
    by (simp add: example_state_def)
  have allun: "\<forall>f \<in> set (filter is_image_name (listdir unreadable_fs example_dir)).
      \<not> read_nonempty unreadable_fs (path_join example_dir f)"
    unfolding ls2 using un by simp
  have some: "filter is_image_name (listdir unreadable_fs example_dir) \<noteq> []"
    unfolding ls2 by simp
  have b: "all_true_labels (fst (process_images_run unreadable_fs example_dir example_state)) \<noteq> []
     \<and> all_predicted_labels (fst (process_images_run unreadable_fs example_dir example_state)) \<noteq> []
     \<and> fst (process_images_in_directory unreadable_fs example_dir example_state) = (0, 0, 0)"
    using no_labels_iff_no_matching_entry [OF dir2, of example_state] allun some
    by blast
  show ?thesis using dir1 ls1 dir2 ls2 un a b by blast
qed

text \<open>
  A directory whose only image file cannot be read: labels are collected, the line that no
  valid images were processed is not printed, and the metrics are zero.
\<close>

theorem unreadable_files_collect_labels:
  "isdir unreadable_fs example_dir
   \<and> filter is_image_name (listdir unreadable_fs example_dir) = [''b.JPG'']
   \<and> \<not> read_nonempty unreadable_fs (path_join example_dir ''b.JPG'')
   \<and> process_images_run unreadable_fs example_dir example_state =
       (\<lparr>metrics = (0, 0, 0), all_true_labels = [0, 0], all_predicted_labels = [0, 0]\<rparr>,
        \<lparr>stdout = [''Processing original image: b.JPG'',
                    ''Error: The file fingerprintDatasets/b.JPG was not found.'',
                    ''Processing tampered image: b.JPG'',
                    ''Error: The file fingerprintDatasets/b.JPG was not found.''],
          entropy = (\<lambda>n. n + 2)\<rparr>)"
proof -
  have dir: "isdir unreadable_fs example_dir"
    by (simp add: unreadable_fs_def example_fs_def example_dir_def)
  have ls: "listdir unreadable_fs example_dir = [''b.JPG'']"
    by (simp add: unreadable_fs_def)
  have un: "\<not> read_nonempty unreadable_fs (path_join example_dir ''b.JPG'')"
    by (simp add: example_paths example_reads)
  have ev: "evaluate_binary_vs_sha256 unreadable_fs ''fingerprintDatasets/b.JPG'' t st
      = ((0, 0), print ''Error: The file fingerprintDatasets/b.JPG was not found.'' st)" for t st
    by (simp add: evaluate_binary_vs_sha256_def evaluate_exit_def image_to_binary_def
        unreadable_fs_def example_fs_def)
  have loop: "process_entries unreadable_fs example_dir [''b.JPG''] ([], []) example_state =
      (([0, 0], [0, 0]),
        \<lparr>stdout = [''Processing original image: b.JPG'',
                    ''Error: The file fingerprintDatasets/b.JPG was not found.'',
                    ''Processing tampered image: b.JPG'',
                    ''Error: The file fingerprintDatasets/b.JPG was not found.''],
          entropy = (\<lambda>n. n + 2)\<rparr>)"
    unfolding process_entries_step [OF example_names(3)] Let_def example_paths ev
    by (simp add: print_def example_state_def)
  have m: "precision_score [0, 0] [0, 0] = 0" "recall_score [0, 0] [0, 0] = 0"
      "f1_score [0, 0] [0, 0] = 0"
    using metrics_without_true_positive [of "[0, 0]" "[0, 0]"] by simp_all
  have "process_images_run unreadable_fs example_dir example_state =
       (\<lparr>metrics = (0, 0, 0), all_true_labels = [0, 0], all_predicted_labels = [0, 0]\<rparr>,
        \<lparr>stdout = [''Processing original image: b.JPG'',
                    ''Error: The file fingerprintDatasets/b.JPG was not found.'',
                    ''Processing tampered image: b.JPG'',
                    ''Error: The file fingerprintDatasets/b.JPG was not found.''],
          entropy = (\<lambda>n. n + 2)\<rparr>)"
    unfolding process_images_run_def ls loop using dir by (simp add: m)
  with dir un show ?thesis by (simp add: ls example_names)
qed


section \<open>Digests and byte sequences\<close>

lemma card_byte_strings: "finite (byte_strings n) \<and> card (byte_strings n) = 256 ^ n"
proof -
  have "byte_strings n = {b. set b \<subseteq> (UNIV :: byte set) \<and> length b = n}"
    by (simp add: byte_strings_def)
  moreover have "card (UNIV :: byte set) = 256" by (simp add: card_word)
  ultimately show ?thesis
    using card_lists_length_eq [of "UNIV :: byte set" n]
      finite_lists_length_eq [of "UNIV :: byte set" n]
    by simp
qed

lemma card_hex_strings: "finite (hex_strings n) \<and> card (hex_strings n) = 16 ^ n"
proof -
  have d: "distinct ''0123456789abcdef''" by simp
  have l: "length ''0123456789abcdef'' = 16" by simp
  have c: "card (set ''0123456789abcdef'') = 16"
    by (simp only: distinct_card [OF d] l)
  have f: "finite (set ''0123456789abcdef'')" by (rule finite_set)
  show ?thesis
    by (simp only: hex_strings_def card_lists_length_eq [OF f] finite_lists_length_eq [OF f]
        c simp_thms)
qed

lemma digest_in_hex_strings: "generate_sha256_hash b \<in> hex_strings 64"
  by (simp only: hex_strings_def generate_sha256_hash_def mem_Collect_eq
      length_hexdigest hexdigest_lower_hex simp_thms)

lemma digest_not_injective: "\<not> inj_on generate_sha256_hash (byte_strings 33)"
proof
  assume inj: "inj_on generate_sha256_hash (byte_strings 33)"
  have eq: "card (generate_sha256_hash ` byte_strings 33) = card (byte_strings 33)"
    using inj by (rule card_image)
  have le: "card (generate_sha256_hash ` byte_strings 33) \<le> card (hex_strings 64)"
  proof (rule card_mono)
    show "finite (hex_strings 64)" using card_hex_strings [of 64] by blast
    show "generate_sha256_hash ` byte_strings 33 \<subseteq> hex_strings 64"
      using digest_in_hex_strings by auto
  qed
  have c1: "card (byte_strings 33) = 256 ^ 33" using card_byte_strings [of 33] by blast
  have c2: "card (hex_strings 64) = 16 ^ 64" using card_hex_strings [of 64] by blast
  have "card (byte_strings 33) \<le> card (hex_strings 64)"
    by (rule ord_eq_le_trans [OF eq [symmetric] le])
  then have "(256::nat) ^ 33 \<le> 16 ^ 64" by (simp only: c1 c2)
  then show False by simp
qed

lemma digest_collision:
  "\<exists>x y. length x = 33 \<and> length y = 33 \<and> x \<noteq> y
         \<and> generate_sha256_hash x = generate_sha256_hash y"
  using digest_not_injective by (auto simp add: inj_on_def byte_strings_def)

text \<open>
  C7, as the code has it. Equal byte sequences have equal digests, so different digests
  show different bytes. The converse fails: a digest is one of the \<open>16 ^ 64\<close> strings of
  64 hexadecimal characters, and already among the byte sequences of length 33 two
  different ones have the same digest.
\<close>

theorem equal_bytes_equal_digests:
  "(a = b \<longrightarrow> generate_sha256_hash a = generate_sha256_hash b)
   \<and> (generate_sha256_hash a \<noteq> generate_sha256_hash b \<longrightarrow> a \<noteq> b)
   \<and> generate_sha256_hash a \<in> hex_strings 64
   \<and> card (hex_strings 64) = 16 ^ 64
   \<and> (\<exists>x y. length x = 33 \<and> length y = 33 \<and> x \<noteq> y
         \<and> generate_sha256_hash x = generate_sha256_hash y)"
  using digest_collision digest_in_hex_strings [of a] card_hex_strings [of 64] by blast

theorem equal_bytes_equal_digests_witness:
  "generate_sha256_hash abcd \<noteq> generate_sha256_hash [0x41, 0x42, 0x03, 0x44]
   \<and> abcd \<noteq> [0x41, 0x42, 0x03, 0x44]
   \<and> abcd = abcd
   \<and> generate_sha256_hash abcd = generate_sha256_hash abcd
   \<and> generate_sha256_hash abcd \<in> hex_strings 64
   \<and> card (hex_strings 64) = 16 ^ 64"
proof -
  have ne: "generate_sha256_hash abcd \<noteq> generate_sha256_hash [0x41, 0x42, 0x03, 0x44]"
    by (simp add: digest_abcd digest_abcd_tampered)
  show ?thesis
    using ne equal_bytes_equal_digests [of abcd "[0x41, 0x42, 0x03, 0x44]"]
      equal_bytes_equal_digests [of abcd abcd]
    by blast
qed

text \<open>The hasher is not injective.\<close>

theorem digest_equality_not_byte_equality:
  "\<not> (\<forall>a b. (generate_sha256_hash a = generate_sha256_hash b) = (a = b))"
  using digest_collision by blast

end
